theory Spec2Isabelle
  imports Complex_Main "HOL-Library.Word"
begin

unbundle bit_operations_syntax

section \<open>The canvas noise injector of \<^verbatim>\<open>canvas_spoof.js\<close>\<close>

subsection \<open>Pixel data\<close>

text \<open>
  \<^verbatim>\<open>imageData.data\<close> is a \<^verbatim>\<open>Uint8ClampedArray\<close>: a fixed-length array of bytes,
  four per pixel (red, green, blue, alpha). Reading past its end gives \<^verbatim>\<open>undefined\<close>,
  writing past its end does nothing, and a stored number is clamped to 0..255.
\<close>

type_synonym byte = "8 word"

definition load :: "byte list \<Rightarrow> nat \<Rightarrow> int option" where
  "load d j = (if j < length d then Some (uint (d ! j)) else None)"

definition clamp8 :: "int \<Rightarrow> byte" where
  "clamp8 v = word_of_int (max 0 (min 255 v))"

definition store :: "byte list \<Rightarrow> nat \<Rightarrow> int \<Rightarrow> byte list" where
  "store d j v = (if j < length d then d[j := clamp8 v] else d)"

subsection \<open>Doubles, \<^verbatim>\<open>Math.random() * 3\<close> and \<^verbatim>\<open>Math.floor\<close>\<close>

text \<open>
  A finite double that is not negative is \<open>mant * 2 ^ expo\<close> with a significand of at
  most 53 bits. \<^verbatim>\<open>Math.random()\<close> returns such a value.
\<close>

record double =
  mant :: nat
  expo :: int


definition val :: "double \<Rightarrow> real" where
  "val x = real (mant x) * 2 powi expo x"

text \<open>
  \<open>n / b\<close> rounded to the nearest integer, a tie going to the even one: the rounding of
  IEEE 754 arithmetic, which the multiplication of two doubles applies to its result.
\<close>

definition round_half_even :: "nat \<Rightarrow> nat \<Rightarrow> nat" where
  "round_half_even n b =
     (if 2 * (n mod b) < b then n div b
      else if b < 2 * (n mod b) then n div b + 1
      else if even (n div b) then n div b
      else n div b + 1)"

text \<open>
  \<^verbatim>\<open>x * 3\<close> for a double \<open>x\<close>. The exact product has the significand \<open>3 * mant x\<close>, of at
  most 55 bits; when it has more than 53 bits, the lowest one or two bits are rounded
  away. (The result is finite for every \<open>x\<close> below \<open>2 ^ 1022\<close>.)
\<close>

definition times3 :: "double \<Rightarrow> double" where
  "times3 x =
     (if 3 * mant x < 2 ^ 53 then \<lparr>mant = 3 * mant x, expo = expo x\<rparr>
      else if 3 * mant x < 2 ^ 54
        then \<lparr>mant = round_half_even (3 * mant x) 2, expo = expo x + 1\<rparr>
      else \<lparr>mant = round_half_even (3 * mant x) 4, expo = expo x + 2\<rparr>)"

text \<open>\<^verbatim>\<open>Math.floor(x)\<close>, as an integer.\<close>

definition Math_floor :: "double \<Rightarrow> int" where
  "Math_floor x =
     (if 0 \<le> expo x then int (mant x) * 2 ^ nat (expo x)
      else int (mant x) div 2 ^ nat (- expo x))"

text \<open>
  \<^verbatim>\<open>Math.floor(Math.random() * 3) - 1\<close>, for the double \<open>r\<close> that \<^verbatim>\<open>Math.random()\<close>
  returned.
\<close>

definition noise :: "double \<Rightarrow> int" where
  "noise r = Math_floor (times3 r) - 1"

text \<open>
  \<^verbatim>\<open>(imageData.data[i + 3] + noise) & 255\<close>. When the read is out of range the sum is
  \<^verbatim>\<open>undefined + noise = NaN\<close>, and \<^verbatim>\<open>NaN & 255\<close> is 0.
\<close>

definition new_alpha :: "int option \<Rightarrow> int \<Rightarrow> int" where
  "new_alpha a n = (case a of None \<Rightarrow> 0 | Some v \<Rightarrow> (v + n) AND 255)"

subsection \<open>The alpha loop\<close>

text \<open>
  \<^verbatim>\<open>for (let i = 0; i < imageData.data.length; i += 4) { ... }\<close>.
  The state of the loop is the index \<open>i\<close>, the buffer, the number \<open>k\<close> of calls of
  \<^verbatim>\<open>Math.random\<close> made so far (the \<open>k\<close>-th call returns \<open>rnd k\<close>), and the list of the
  buffer indices the body has accessed.
\<close>

function alpha_loop ::
  "(nat \<Rightarrow> double) \<Rightarrow> nat \<Rightarrow> byte list \<Rightarrow> nat \<Rightarrow> nat list \<Rightarrow> byte list \<times> nat \<times> nat list" where
  "alpha_loop rnd i d k tr =
     (if i < length d
      then alpha_loop rnd (i + 4)
             (store d (i + 3) (new_alpha (load d (i + 3)) (noise (rnd k))))
             (Suc k) (tr @ [i + 3])
      else (d, k, tr))"
  by pat_completeness auto
termination
  by (relation "measure (\<lambda>(rnd, i, d, k, tr). length d - i)") (auto simp: store_def)

subsection \<open>The browser: canvas, contexts, functions, exceptions\<close>

text \<open>The exceptions a script can see from the canvas API and from failed calls.\<close>

datatype exn = SecurityError | TypeError | ReferenceError | RangeError

text \<open>
  A canvas element: its size, whether \<^verbatim>\<open>getContext("2d")\<close> gives a context or \<^verbatim>\<open>null\<close>
  (it gives \<^verbatim>\<open>null\<close> for a canvas that has a context of another kind),
  and its bitmap of RGBA bytes in row-major order. The native pixel read throws
  \<open>read_error\<close> when that is set (a tainted canvas has \<open>Some SecurityError\<close>), the
  native pixel write throws \<open>write_error\<close> when that is set.
\<close>

record canvas =
  width :: nat
  height :: nat
  context2d :: bool
  bitmap :: "byte list"
  read_error :: "exn option"
  write_error :: "exn option"

datatype rendering_context = Context2D

datatype export = ToDataURL | ToBlob

text \<open>
  The values that the three prototype properties can hold and that the script captures:
  \<^verbatim>\<open>undefined\<close>, a native function of the browser, or a wrapper closure created by the
  script. A wrapper holds the two variables it closes over: \<^verbatim>\<open>getImageData\<close> (through
  \<^verbatim>\<open>noisyFunction\<close>) and \<^verbatim>\<open>originalToDataURL\<close> or \<^verbatim>\<open>originalToBlob\<close>.
\<close>

datatype jsval =
    Undefined
  | NativeGetImageData
  | NativeExport export
  | Wrapper jsval jsval

text \<open>The calls into the browser that a run makes, in order; \<open>'a\<close> is the argument list
  of an export call.\<close>

datatype 'a event =
    CalledGetContext
  | CalledGetImageData
  | CalledPutImageData
  | CalledExport export 'a

text \<open>The statements of the installation that read or assign a property of a global.\<close>

datatype step = ReadGetImageData | ReadToDataURL | WriteToDataURL | ReadToBlob | WriteToBlob

text \<open>
  What the host fixes: which property accesses of the installation throw (a missing
  global \<^verbatim>\<open>CanvasRenderingContext2D\<close> makes \<open>ReadGetImageData\<close> throw a ReferenceError);
  which assignments it ignores without an exception (the script is not strict-mode
  code, so an assignment to a property that is not writable does nothing);
  the doubles \<^verbatim>\<open>Math.random\<close> returns call after call; the colour byte that a pixel
  read gives back for a colour byte written beside an alpha byte (a 2D canvas stores
  colours multiplied by alpha); and what the native export functions give for a canvas
  and an argument list.
\<close>

record ('a, 'r) host =
  throws :: "step \<Rightarrow> exn option"
  ignored :: "step \<Rightarrow> bool"
  random :: "nat \<Rightarrow> double"
  requantize :: "byte \<Rightarrow> byte \<Rightarrow> byte"
  native_export :: "export \<Rightarrow> canvas \<Rightarrow> 'a \<Rightarrow> exn + 'r"

text \<open>
  The state of the page: the three prototype properties, the lines written by
  \<^verbatim>\<open>console.error\<close>, the canvas that is the receiver \<^verbatim>\<open>this\<close> of the export calls,
  the number of calls of \<^verbatim>\<open>Math.random\<close> made, and the browser calls made.
\<close>

record 'a page =
  getImageData_slot :: jsval
  toDataURL_slot :: jsval
  toBlob_slot :: jsval
  console :: "exn list"
  this :: canvas
  drawn :: nat
  events :: "'a event list"

definition called :: "'a event \<Rightarrow> 'a page \<Rightarrow> 'a page" where
  "called ev p = p\<lparr>events := events p @ [ev]\<rparr>"

text \<open>\<^verbatim>\<open>this.getContext("2d")\<close>\<close>

definition getContext :: "'a page \<Rightarrow> rendering_context option \<times> 'a page" where
  "getContext p =
     ((if context2d (this p) then Some Context2D else None), called CalledGetContext p)"

text \<open>
  \<^verbatim>\<open>getImageData.call(context, 0, 0, width, height)\<close> for the captured value \<open>g\<close>. Only the
  native pixel read can be called on a context: \<^verbatim>\<open>undefined\<close> is not callable, a native
  export function refuses a receiver that is no canvas, and a wrapper finds no
  \<^verbatim>\<open>getContext\<close> on a context; each of these is a TypeError.
\<close>

definition call_getImageData :: "jsval \<Rightarrow> 'a page \<Rightarrow> (exn + byte list) \<times> 'a page" where
  "call_getImageData g p =
     (case g of
        NativeGetImageData \<Rightarrow>
          (case read_error (this p) of
             Some e \<Rightarrow> (Inl e, called CalledGetImageData p)
           | None \<Rightarrow> (Inr (bitmap (this p)), called CalledGetImageData p))
      | _ \<Rightarrow> (Inl TypeError, p))"

text \<open>
  The bytes a canvas holds, as a pixel read gives them, after the buffer has been
  written to it: pixel by pixel the alpha byte as written, and each colour byte as the
  host requantizes it for that alpha.
\<close>

fun canvas_pixels :: "(byte \<Rightarrow> byte \<Rightarrow> byte) \<Rightarrow> byte list \<Rightarrow> byte list" where
  "canvas_pixels q (r # g # b # a # rest) = q r a # q g a # q b a # a # canvas_pixels q rest"
| "canvas_pixels q rest = rest"

text \<open>\<^verbatim>\<open>context.putImageData(imageData, 0, 0)\<close>\<close>

definition putImageData ::
  "('a, 'r) host \<Rightarrow> byte list \<Rightarrow> 'a page \<Rightarrow> exn option \<times> 'a page" where
  "putImageData h d p =
     (case write_error (this p) of
        Some e \<Rightarrow> (Some e, called CalledPutImageData p)
      | None \<Rightarrow>
          (None, called CalledPutImageData
             (p\<lparr>this := (this p)\<lparr>bitmap := canvas_pixels (requantize h) d\<rparr>\<rparr>)))"

subsection \<open>\<^verbatim>\<open>noisyFunction\<close>\<close>

text \<open>The result is the exception thrown, if any, and the page afterwards.\<close>

definition noisyFunction ::
  "('a, 'r) host \<Rightarrow> jsval \<Rightarrow> rendering_context option \<Rightarrow> 'a page \<Rightarrow> exn option \<times> 'a page" where
  "noisyFunction h g context p =
     (if context = None then (None, p)
      else if width (this p) = 0 \<or> height (this p) = 0 then (None, p)
      else
        (case call_getImageData g p of
           (Inl e, p1) \<Rightarrow> (Some e, p1)
         | (Inr imageData, p1) \<Rightarrow>
             (case alpha_loop (random h) 0 imageData (drawn p1) [] of
                (imageData', k, tr) \<Rightarrow> putImageData h imageData' (p1\<lparr>drawn := k\<rparr>))))"

subsection \<open>Calling a function value as an export method of the canvas\<close>

text \<open>
  The first statement of both wrappers: \<^verbatim>\<open>noisyFunction(this, this.getContext("2d"))\<close>,
  for the captured \<^verbatim>\<open>getImageData\<close> value \<open>g\<close>.
\<close>

definition noise_step :: "('a, 'r) host \<Rightarrow> jsval \<Rightarrow> 'a page \<Rightarrow> exn option \<times> 'a page" where
  "noise_step h g p = (case getContext p of (context, p0) \<Rightarrow> noisyFunction h g context p0)"

text \<open>
  \<open>invoke h f a p\<close> is \<^verbatim>\<open>f.apply(this, a)\<close>. A wrapper runs
  \<^verbatim>\<open>noisyFunction(this, this.getContext("2d")); return original.apply(this, arguments)\<close>
  and has no handler of its own, so an exception of the first statement ends the call.
  Calling \<^verbatim>\<open>undefined\<close>, or the native pixel read on a canvas, is a TypeError.
\<close>

fun invoke :: "('a, 'r) host \<Rightarrow> jsval \<Rightarrow> 'a \<Rightarrow> 'a page \<Rightarrow> (exn + 'r) \<times> 'a page" where
  "invoke h Undefined a p = (Inl TypeError, p)"
| "invoke h NativeGetImageData a p = (Inl TypeError, p)"
| "invoke h (NativeExport k) a p = (native_export h k (this p) a, called (CalledExport k a) p)"
| "invoke h (Wrapper g original) a p =
     (case noise_step h g p of
        (Some e, p1) \<Rightarrow> (Inl e, p1)
      | (None, p1) \<Rightarrow> invoke h original a p1)"

subsection \<open>The installation\<close>

text \<open>
  The body of the \<^verbatim>\<open>try\<close> block, statement by statement. It gives the exception that
  ended it, if any, and the page as the statements run so far have left it. An
  assignment throws, or is ignored by the host, or takes effect.
\<close>

definition try_block :: "('a, 'r) host \<Rightarrow> 'a page \<Rightarrow> exn option \<times> 'a page" where
  "try_block h p =
     (case throws h ReadGetImageData of
        Some e \<Rightarrow> (Some e, p)
      | None \<Rightarrow>
         (let getImageData = getImageData_slot p in
          (case throws h ReadToDataURL of
             Some e \<Rightarrow> (Some e, p)
           | None \<Rightarrow>
              (let originalToDataURL = toDataURL_slot p in
               (case throws h WriteToDataURL of
                  Some e \<Rightarrow> (Some e, p)
                | None \<Rightarrow>
                   (let p1 = (if ignored h WriteToDataURL then p
                              else p\<lparr>toDataURL_slot := Wrapper getImageData originalToDataURL\<rparr>) in
                    (case throws h ReadToBlob of
                       Some e \<Rightarrow> (Some e, p1)
                     | None \<Rightarrow>
                        (let originalToBlob = toBlob_slot p1 in
                         (case throws h WriteToBlob of
                            Some e \<Rightarrow> (Some e, p1)
                          | None \<Rightarrow>
                             (None,
                              if ignored h WriteToBlob then p1
                              else p1\<lparr>toBlob_slot :=
                                     Wrapper getImageData originalToBlob\<rparr>))))))))))"

text \<open>The whole script: the \<^verbatim>\<open>catch\<close> clause writes the exception to the console.\<close>

definition install :: "('a, 'r) host \<Rightarrow> 'a page \<Rightarrow> 'a page" where
  "install h p =
     (case try_block h p of
        (Some e, p') \<Rightarrow> p'\<lparr>console := console p' @ [e]\<rparr>
      | (None, p') \<Rightarrow> p')"

text \<open>An export method call of the page: \<^verbatim>\<open>canvas.toDataURL(a)\<close> or \<^verbatim>\<open>canvas.toBlob(a)\<close>.\<close>

definition export_slot :: "export \<Rightarrow> 'a page \<Rightarrow> jsval" where
  "export_slot k p = (case k of ToDataURL \<Rightarrow> toDataURL_slot p | ToBlob \<Rightarrow> toBlob_slot p)"

definition call_export :: "('a, 'r) host \<Rightarrow> export \<Rightarrow> 'a \<Rightarrow> 'a page \<Rightarrow> (exn + 'r) \<times> 'a page" where
  "call_export h k a p = invoke h (export_slot k p) a p"

text \<open>The canvas as one call of \<^verbatim>\<open>noisyFunction\<close> leaves it.\<close>

abbreviation after_noise ::
  "('a, 'r) host \<Rightarrow> jsval \<Rightarrow> rendering_context option \<Rightarrow> 'a page \<Rightarrow> canvas" where
  "after_noise h g ctx p \<equiv> this (snd (noisyFunction h g ctx p))"

subsection \<open>Example hosts, pages and canvases\<close>

text \<open>
  Concrete inputs for the examples below. \<open>plain_host rnd\<close> is a browser in which no
  property access of the installation throws and no assignment is ignored,
  \<^verbatim>\<open>Math.random\<close> returns \<open>rnd 0\<close>, \<open>rnd 1\<close>, ..., the canvas stores each colour byte
  multiplied by alpha over 255 and a pixel read divides it back, both rounded to
  nearest (\<open>premultiplied\<close>), and a native export gives the bytes of the bitmap as they
  are. The doubles \<open>zero\<close>, \<open>one_half\<close> and \<open>three_quarters\<close> are 0, 0.5 and 0.75;
  \<open>nearest_third\<close> is the double nearest to 1/3, just below it. \<open>native_page c\<close> is a
  fresh page around the canvas \<open>c\<close>: the three properties hold the native functions.
  \<open>opaque_red n\<close> is the buffer of \<open>n\<close> opaque red pixels, \<open>red_canvas\<close> the 10 by 10
  opaque red canvas, \<open>empty_canvas\<close> a canvas of width and height 0, and
  \<open>pixel_canvas d\<close> a canvas one pixel wide over the buffer \<open>d\<close>. \<open>unreadable_canvas\<close> is
  a canvas whose pixel read throws a RangeError (no memory for the copy) while its
  native export works.
\<close>

definition premultiplied :: "byte \<Rightarrow> byte \<Rightarrow> byte" where
  "premultiplied c a =
     (if a = 0 then 0
      else word_of_int
        (min 255 (((uint c * uint a + 127) div 255 * 255 + uint a div 2) div uint a)))"

definition plain_host :: "(nat \<Rightarrow> double) \<Rightarrow> ('a, byte list) host" where
  "plain_host rnd =
     \<lparr>throws = (\<lambda>s. None), ignored = (\<lambda>s. False), random = rnd,
      requantize = premultiplied, native_export = (\<lambda>k c a. Inr (bitmap c))\<rparr>"

definition zero :: double where
  "zero = \<lparr>mant = 0, expo = 0\<rparr>"

definition one_half :: double where
  "one_half = \<lparr>mant = 1, expo = - 1\<rparr>"

definition three_quarters :: double where
  "three_quarters = \<lparr>mant = 3, expo = - 2\<rparr>"

definition nearest_third :: double where
  "nearest_third = \<lparr>mant = 6004799503160661, expo = - 54\<rparr>"

definition native_page :: "canvas \<Rightarrow> 'a page" where
  "native_page c =
     \<lparr>getImageData_slot = NativeGetImageData, toDataURL_slot = NativeExport ToDataURL,
      toBlob_slot = NativeExport ToBlob, console = [], this = c, drawn = 0, events = []\<rparr>"

primrec opaque_red :: "nat \<Rightarrow> byte list" where
  "opaque_red 0 = []"
| "opaque_red (Suc n) = 255 # 0 # 0 # 255 # opaque_red n"

definition red_canvas :: canvas where
  "red_canvas =
     \<lparr>width = 10, height = 10, context2d = True, bitmap = opaque_red 100,
      read_error = None, write_error = None\<rparr>"

definition empty_canvas :: canvas where
  "empty_canvas =
     \<lparr>width = 0, height = 0, context2d = True, bitmap = [],
      read_error = None, write_error = None\<rparr>"

definition pixel_canvas :: "byte list \<Rightarrow> canvas" where
  "pixel_canvas d =
     \<lparr>width = 1, height = length d div 4, context2d = True, bitmap = d,
      read_error = None, write_error = None\<rparr>"

definition unreadable_canvas :: canvas where
  "unreadable_canvas = (pixel_canvas [10, 20, 30, 40])\<lparr>read_error := Some RangeError\<rparr>"

text \<open>A host in which the assignment to \<^verbatim>\<open>HTMLCanvasElement.prototype.toBlob\<close> throws
  (the property has a setter that throws), and every other statement succeeds.\<close>

definition blob_locked_host :: "(nat \<Rightarrow> double) \<Rightarrow> ('a, byte list) host" where
  "blob_locked_host rnd =
     (plain_host rnd)\<lparr>throws := (\<lambda>s. if s = WriteToBlob then Some TypeError else None)\<rparr>"

text \<open>A host without the global \<^verbatim>\<open>CanvasRenderingContext2D\<close>: the first statement of the
  installation throws a ReferenceError.\<close>

definition bare_host :: "(nat \<Rightarrow> double) \<Rightarrow> ('a, byte list) host" where
  "bare_host rnd =
     (plain_host rnd)\<lparr>throws := (\<lambda>s. if s = ReadGetImageData then Some ReferenceError else None)\<rparr>"

text \<open>A fresh page in a host whose \<^verbatim>\<open>CanvasRenderingContext2D.prototype\<close> has no
  \<^verbatim>\<open>getImageData\<close>: reading the property gives \<^verbatim>\<open>undefined\<close> and does not throw.\<close>

definition page_without_pixel_read :: "canvas \<Rightarrow> 'a page" where
  "page_without_pixel_read c = (native_page c)\<lparr>getImageData_slot := Undefined\<rparr>"

text \<open>A canvas whose pixel write throws.\<close>

definition unwritable_canvas :: canvas where
  "unwritable_canvas = (pixel_canvas [10, 20, 30, 40])\<lparr>write_error := Some SecurityError\<rparr>"

text \<open>A host in which \<^verbatim>\<open>HTMLCanvasElement.prototype.toDataURL\<close> is not writable: the
  assignment to it is ignored, and every other statement takes effect.\<close>

definition read_only_toDataURL_host :: "(nat \<Rightarrow> double) \<Rightarrow> ('a, byte list) host" where
  "read_only_toDataURL_host rnd = (plain_host rnd)\<lparr>ignored := (\<lambda>s. s = WriteToDataURL)\<rparr>"

section \<open>Properties\<close>

declare alpha_loop.simps [simp del]

declare invoke.simps(4) [simp del]

subsection \<open>Doubles\<close>

lemma val_nonneg_expo: "0 \<le> expo x \<Longrightarrow> val x = real (mant x * 2 ^ nat (expo x))"
  by (simp add: val_def power_int_def)

lemma val_neg_expo: "expo x < 0 \<Longrightarrow> val x = real (mant x) / real (2 ^ nat (- expo x))"
  by (simp add: val_def power_int_def field_simps)

lemma Math_floor_val: "Math_floor x = \<lfloor>val x\<rfloor>"
proof (cases "0 \<le> expo x")
  case True
  have "\<lfloor>real (mant x * 2 ^ nat (expo x))\<rfloor> = int (mant x * 2 ^ nat (expo x))"
    by (rule floor_of_nat)
  then show ?thesis using True by (simp add: val_nonneg_expo Math_floor_def)
next
  case False
  then have e: "expo x < 0" by simp
  have "\<lfloor>real (mant x) / real (2 ^ nat (- expo x))\<rfloor> = int (mant x div 2 ^ nat (- expo x))"
    by (rule floor_divide_of_nat_eq)
  then show ?thesis using e by (simp add: val_neg_expo Math_floor_def zdiv_int)
qed

lemma round_half_even_bounds:
  assumes "0 < b"
  shows "2 * (b * round_half_even n b) \<le> 2 * n + b"
    and "2 * n \<le> 2 * (b * round_half_even n b) + b"
proof -
  define q where "q = n div b"
  define r where "r = n mod b"
  have n: "n = b * q + r" by (simp add: q_def r_def)
  have r: "r < b" using assms by (simp add: r_def)
  have c: "round_half_even n b =
      (if 2 * r < b then q else if b < 2 * r then q + 1 else if even q then q else q + 1)"
    by (simp add: round_half_even_def q_def r_def)
  show "2 * (b * round_half_even n b) \<le> 2 * n + b"
    unfolding c using r by (auto simp: n algebra_simps)
  show "2 * n \<le> 2 * (b * round_half_even n b) + b"
    unfolding c using r by (auto simp: n algebra_simps)
qed

lemma round_half_even_2: "2 * round_half_even n 2 \<le> n + 1" "n \<le> 2 * round_half_even n 2 + 1"
  using round_half_even_bounds [of 2 n] by simp_all

lemma round_half_even_4: "4 * round_half_even n 4 \<le> n + 2" "n \<le> 4 * round_half_even n 4 + 2"
  using round_half_even_bounds [of 4 n] by simp_all


lemma val_nonneg: "0 \<le> val x"
  by (simp add: val_def)

lemma val_step_below_one:
  assumes "val x < 1" "0 < mant x"
  shows "(real (mant x) + 1) * 2 powi expo x \<le> 1"
proof (cases "0 \<le> expo x")
  case True
  have a: "(1::real) \<le> 2 ^ nat (expo x)" by simp
  have b: "1 \<le> real (mant x)" using assms(2) by simp
  have "1 * 1 \<le> real (mant x) * 2 ^ nat (expo x)"
    using b a by (rule mult_mono) simp_all
  then have "1 \<le> val x" using True by (simp add: val_def power_int_def)
  with assms(1) show ?thesis by simp
next
  case False
  then have e: "expo x < 0" by simp
  let ?k = "nat (- expo x)"
  have u: "2 powi expo x = 1 / (2::real) ^ ?k" using e by (simp add: power_int_def field_simps)
  from assms(1) have "real (mant x) < 2 ^ ?k" by (simp add: val_def u field_simps)
  then have "mant x < 2 ^ ?k" by (metis of_nat_less_iff of_nat_numeral of_nat_power)
  then have "mant x + 1 \<le> 2 ^ ?k" by simp
  then have "real (mant x + 1) \<le> real (2 ^ ?k)" by (rule of_nat_mono)
  then show ?thesis by (simp add: u field_simps)
qed

lemma val_times3_exact: "3 * mant x < 2 ^ 53 \<Longrightarrow> val (times3 x) = 3 * val x"
  by (simp add: times3_def val_def)

lemma val_times3_below_three:
  assumes "val x < 1"
  shows "val (times3 x) < 3"
proof (cases "3 * mant x < 2 ^ 53")
  case True
  then show ?thesis using assms by (simp add: val_times3_exact)
next
  case False
  then have pos: "0 < mant x" by (cases "mant x = 0") simp_all
  define u where "u = (2::real) powi expo x"
  have u: "0 < u" by (simp add: u_def)
  have st: "(real (mant x) + 1) * u \<le> 1"
    unfolding u_def using assms pos by (rule val_step_below_one)
  show ?thesis
  proof (cases "3 * mant x < 2 ^ 54")
    case True
    let ?m = "round_half_even (3 * mant x) 2"
    have v: "val (times3 x) = real ?m * (2 * u)"
      using False True by (simp add: times3_def val_def u_def power_int_add)
    have "real (2 * ?m) \<le> real (3 * mant x + 1)"
      by (rule of_nat_mono) (rule round_half_even_2)
    then have "real (2 * ?m) * u \<le> real (3 * mant x + 1) * u"
      using u by (intro mult_right_mono) simp_all
    with st u have "real ?m * (2 * u) < 3" by (simp add: algebra_simps)
    then show ?thesis by (simp only: v)
  next
    case F2: False
    let ?m = "round_half_even (3 * mant x) 4"
    have v: "val (times3 x) = real ?m * (4 * u)"
      using False F2 by (simp add: times3_def val_def u_def power_int_add)
    have "real (4 * ?m) \<le> real (3 * mant x + 2)"
      by (rule of_nat_mono) (rule round_half_even_4)
    then have "real (4 * ?m) * u \<le> real (3 * mant x + 2) * u"
      using u by (intro mult_right_mono) simp_all
    with st u have "real ?m * (4 * u) < 3" by (simp add: algebra_simps)
    then show ?thesis by (simp only: v)
  qed
qed

lemma noise_range:
  assumes "val r < 1"
  shows "noise r \<in> {-1, 0, 1}"
proof -
  have "0 \<le> \<lfloor>val (times3 r)\<rfloor>" by (simp add: val_nonneg)
  moreover have "\<lfloor>val (times3 r)\<rfloor> < 3"
    using val_times3_below_three [OF assms] by (simp add: floor_less_iff)
  ultimately have "\<lfloor>val (times3 r)\<rfloor> = 0 \<or> \<lfloor>val (times3 r)\<rfloor> = 1 \<or> \<lfloor>val (times3 r)\<rfloor> = 2"
    by linarith
  then show ?thesis by (auto simp: noise_def Math_floor_val)
qed




subsection \<open>Bytes\<close>

lemma length_store [simp]: "length (store d j v) = length d"
  by (simp add: store_def)

lemma and_255_mod: "(x::int) AND 255 = x mod 256"
proof -
  have "(255::int) = mask 8" by (simp add: mask_eq_exp_minus_1)
  then have "x AND 255 = take_bit 8 x" by (simp only: take_bit_eq_mask)
  then show ?thesis by (simp add: take_bit_eq_mod)
qed

lemma clamp8_and: "clamp8 ((uint a + n) AND 255) = a + word_of_int n"
proof -
  have m: "(uint a + n) AND 255 = (uint a + n) mod 256" by (rule and_255_mod)
  have lo: "0 \<le> (uint a + n) mod 256" by simp
  have hi: "(uint a + n) mod 256 \<le> 255"
    using pos_mod_bound [of 256 "uint a + n"] by linarith
  have "clamp8 ((uint a + n) AND 255) = (word_of_int ((uint a + n) mod 256) :: byte)"
    using lo hi by (simp add: clamp8_def m max_def min_def)
  also have "\<dots> = word_of_int (uint a + n)"
    unfolding word_of_int_eq_iff by (simp add: take_bit_eq_mod)
  also have "\<dots> = a + word_of_int n" by simp
  finally show ?thesis .
qed

subsection \<open>The loop, step by step\<close>

lemma alpha_loop_unfold:
  "i < length d \<Longrightarrow>
   alpha_loop rnd i d k tr =
     alpha_loop rnd (i + 4) (store d (i + 3) (new_alpha (load d (i + 3)) (noise (rnd k))))
       (Suc k) (tr @ [i + 3])"
  by (subst alpha_loop.simps) simp

lemma alpha_loop_exit: "\<not> i < length d \<Longrightarrow> alpha_loop rnd i d k tr = (d, k, tr)"
  by (subst alpha_loop.simps) simp

lemma alpha_loop_count_trace:
  "length d = i + 4 * n \<Longrightarrow>
   snd (alpha_loop rnd i d k tr) = (k + n, tr @ map (\<lambda>m. i + 4 * m + 3) [0 ..< n])"
proof (induction rnd i d k tr arbitrary: n rule: alpha_loop.induct)
  case (1 rnd i d k tr)
  show ?case
  proof (cases n)
    case 0
    with "1.prems" have "\<not> i < length d" by simp
    then show ?thesis using 0 by (simp add: alpha_loop_exit)
  next
    case (Suc n')
    with "1.prems" have lt: "i < length d" by simp
    let ?d = "store d (i + 3) (new_alpha (load d (i + 3)) (noise (rnd k)))"
    have "length ?d = i + 4 + 4 * n'" using "1.prems" Suc by simp
    from "1.IH" [OF lt this]
    have ih: "snd (alpha_loop rnd i d k tr) =
        (Suc k + n', (tr @ [i + 3]) @ map (\<lambda>m. i + 4 + 4 * m + 3) [0 ..< n'])"
      by (simp only: alpha_loop_unfold [OF lt])
    have "map (\<lambda>m. i + 4 * m + 3) [0 ..< Suc n'] =
        (i + 3) # map (\<lambda>m. i + 4 + 4 * m + 3) [0 ..< n']"
      by (simp add: upt_conv_Cons map_Suc_upt [symmetric] del: upt_Suc)
    then show ?thesis using ih Suc by simp
  qed
qed


lemma alpha_loop_other:
  "(\<And>m. j \<noteq> i + 4 * m + 3) \<Longrightarrow> fst (alpha_loop rnd i d k tr) ! j = d ! j"
proof (induction rnd i d k tr rule: alpha_loop.induct)
  case (1 rnd i d k tr)
  show ?case
  proof (cases "i < length d")
    case False
    then show ?thesis by (simp add: alpha_loop_exit)
  next
    case True
    have "j \<noteq> i + 4 + 4 * m + 3" for m
      using "1.prems" [of "Suc m"] by simp
    from "1.IH" [OF True this]
    have "fst (alpha_loop rnd i d k tr) ! j =
        store d (i + 3) (new_alpha (load d (i + 3)) (noise (rnd k))) ! j"
      by (simp only: alpha_loop_unfold [OF True])
    moreover have "j \<noteq> i + 3" using "1.prems" [of 0] by simp
    ultimately show ?thesis by (simp add: store_def)
  qed
qed

lemma alpha_loop_alpha:
  "i + 4 * m + 3 < length d \<Longrightarrow>
   fst (alpha_loop rnd i d k tr) ! (i + 4 * m + 3) =
     clamp8 ((uint (d ! (i + 4 * m + 3)) + noise (rnd (k + m))) AND 255)"
proof (induction rnd i d k tr arbitrary: m rule: alpha_loop.induct)
  case (1 rnd i d k tr)
  from "1.prems" have lt: "i < length d" by simp
  let ?d = "store d (i + 3) (new_alpha (load d (i + 3)) (noise (rnd k)))"
  note unf = alpha_loop_unfold [OF lt, of rnd k tr]
  show ?case
  proof (cases m)
    case 0
    have "i + 3 \<noteq> i + 4 + 4 * m' + 3" for m' by simp
    then have "fst (alpha_loop rnd (i + 4) ?d (Suc k) (tr @ [i + 3])) ! (i + 3) = ?d ! (i + 3)"
      by (rule alpha_loop_other)
    then show ?thesis using "1.prems" 0
      by (simp add: unf store_def load_def new_alpha_def)
  next
    case (Suc n)
    have idx: "i + 4 * m + 3 = i + 4 + 4 * n + 3" using Suc by simp
    have "i + 4 + 4 * n + 3 < length ?d" using "1.prems" Suc by simp
    from "1.IH" [OF lt this]
    show ?thesis unfolding unf idx using Suc by (simp add: store_def)
  qed
qed

lemma alpha_loop_length: "length (fst (alpha_loop rnd i d k tr)) = length d"
proof (induction rnd i d k tr rule: alpha_loop.induct)
  case (1 rnd i d k tr)
  show ?case
  proof (cases "i < length d")
    case True
    from "1.IH" [OF True] show ?thesis
      by (simp only: alpha_loop_unfold [OF True] length_store)
  next
    case False
    then show ?thesis by (simp add: alpha_loop_exit)
  qed
qed


lemma alpha_loop_pixel:
  assumes "4 * m + 3 < length d"
  shows "fst (alpha_loop rnd 0 d k tr) ! (4 * m + 3) =
           d ! (4 * m + 3) + word_of_int (noise (rnd (k + m)))"
  using alpha_loop_alpha [of 0 m d rnd k tr] assms by (simp add: clamp8_and)

subsection \<open>The noise value and the draws of the loop\<close>

lemma noise_examples:
  "noise zero = - 1" "noise one_half = 0" "noise three_quarters = 1" "noise nearest_third = 0"
  by (simp_all add: noise_def times3_def Math_floor_def round_half_even_def
      zero_def one_half_def three_quarters_def nearest_third_def)



subsection \<open>Bounds of the buffer accesses\<close>

text \<open>
  Claim C9. When the length of the buffer is a multiple of 4, the loop accesses exactly
  the indices \<open>3, 7, 11, ...\<close>, one for each pixel; each of them is \<open>i + 3\<close> for an index
  \<open>i\<close> that is a multiple of 4 below the length, and each lies inside the buffer.
\<close>

theorem alpha_loop_in_bounds:
  "4 dvd length d \<longrightarrow>
     snd (snd (alpha_loop rnd 0 d k [])) = map (\<lambda>m. 4 * m + 3) [0 ..< length d div 4] \<and>
     (\<forall>j \<in> set (snd (snd (alpha_loop rnd 0 d k []))).
        j < length d \<and> (\<exists>i. j = i + 3 \<and> 4 dvd i \<and> i < length d))"
proof
  assume "4 dvd length d"
  then obtain n where n: "length d = 4 * n" by (auto simp: dvd_def)
  have t: "snd (snd (alpha_loop rnd 0 d k [])) = map (\<lambda>m. 4 * m + 3) [0 ..< n]"
    using alpha_loop_count_trace [of d 0 n rnd k "[]"] n by simp
  have "j < length d \<and> (\<exists>i. j = i + 3 \<and> 4 dvd i \<and> i < length d)"
    if "j \<in> set (map (\<lambda>m. 4 * m + 3) [0 ..< n])" for j
  proof -
    from that obtain m where m: "m < n" "j = 4 * m + 3" by auto
    then have "j < length d" using n by simp
    moreover have "j = 4 * m + 3 \<and> 4 dvd 4 * m \<and> 4 * m < length d" using m n by simp
    ultimately show ?thesis by blast
  qed
  with t n show "snd (snd (alpha_loop rnd 0 d k [])) = map (\<lambda>m. 4 * m + 3) [0 ..< length d div 4] \<and>
     (\<forall>j \<in> set (snd (snd (alpha_loop rnd 0 d k []))).
        j < length d \<and> (\<exists>i. j = i + 3 \<and> 4 dvd i \<and> i < length d))"
    by simp
qed

theorem alpha_loop_in_bounds_witness:
  "4 dvd length (opaque_red 2) \<and>
   snd (snd (alpha_loop (\<lambda>k. zero) 0 (opaque_red 2) 0 [])) = [3, 7] \<and>
   length (opaque_red 2) = 8"
proof -
  have l: "length (opaque_red 2) = 8" by (simp add: numeral_2_eq_2)
  then have d: "4 dvd length (opaque_red 2)" by simp
  note t = alpha_loop_in_bounds [of "opaque_red 2" "\<lambda>k. zero" 0, THEN mp, OF d, THEN conjunct1]
  have "map (\<lambda>m. 4 * m + 3) [0 ..< length (opaque_red 2) div 4] = [3, 7::nat]"
    by (simp add: l upt_conv_Cons)
  with t d l show ?thesis by simp
qed

subsection \<open>Each alpha byte depends on its own input and draw only\<close>

text \<open>
  Claim C10. The alpha byte of pixel \<open>j\<close> after the loop is a function of the alpha byte
  of pixel \<open>j\<close> before it and of the draw number \<open>k + j\<close> alone: two buffers, of any
  lengths and with any other bytes, that agree on the alpha byte of pixel \<open>j\<close> give the
  same alpha byte for pixel \<open>j\<close> under the same draws.
\<close>

theorem alpha_noninterference:
  "4 * j + 3 < length d1 \<and> 4 * j + 3 < length d2 \<and> d1 ! (4 * j + 3) = d2 ! (4 * j + 3) \<longrightarrow>
     fst (alpha_loop rnd 0 d1 k []) ! (4 * j + 3) = fst (alpha_loop rnd 0 d2 k []) ! (4 * j + 3) \<and>
     fst (alpha_loop rnd 0 d1 k []) ! (4 * j + 3) =
       clamp8 (new_alpha (Some (uint (d1 ! (4 * j + 3)))) (noise (rnd (k + j))))"
proof (intro impI, elim conjE)
  assume a: "4 * j + 3 < length d1" "4 * j + 3 < length d2" "d1 ! (4 * j + 3) = d2 ! (4 * j + 3)"
  have 1: "fst (alpha_loop rnd 0 d1 k []) ! (4 * j + 3) =
      clamp8 ((uint (d1 ! (4 * j + 3)) + noise (rnd (k + j))) AND 255)"
    using alpha_loop_alpha [of 0 j d1 rnd k "[]"] a(1) by simp
  have 2: "fst (alpha_loop rnd 0 d2 k []) ! (4 * j + 3) =
      clamp8 ((uint (d2 ! (4 * j + 3)) + noise (rnd (k + j))) AND 255)"
    using alpha_loop_alpha [of 0 j d2 rnd k "[]"] a(2) by simp
  from 1 2 a(3) show "fst (alpha_loop rnd 0 d1 k []) ! (4 * j + 3) = fst (alpha_loop rnd 0 d2 k []) ! (4 * j + 3) \<and>
     fst (alpha_loop rnd 0 d1 k []) ! (4 * j + 3) =
       clamp8 (new_alpha (Some (uint (d1 ! (4 * j + 3)))) (noise (rnd (k + j))))"
    by (simp add: new_alpha_def)
qed

theorem alpha_noninterference_witness:
  "4 * 1 + 3 < length [1, 2, 3, 200, 9, 9, 9, 77 :: byte] \<and>
   4 * 1 + 3 < length [4, 5, 6, 100, 0, 0, 0, 77, 1, 1, 1, 1 :: byte] \<and>
   [1, 2, 3, 200, 9, 9, 9, 77 :: byte] ! (4 * 1 + 3) =
     [4, 5, 6, 100, 0, 0, 0, 77, 1, 1, 1, 1] ! (4 * 1 + 3) \<and>
   fst (alpha_loop (\<lambda>k. three_quarters) 0 [1, 2, 3, 200, 9, 9, 9, 77] 0 []) ! 7 =
     fst (alpha_loop (\<lambda>k. three_quarters) 0 [4, 5, 6, 100, 0, 0, 0, 77, 1, 1, 1, 1] 0 []) ! 7 \<and>
   fst (alpha_loop (\<lambda>k. three_quarters) 0 [1, 2, 3, 200, 9, 9, 9, 77] 0 []) ! 7 = 78"
proof -
  let ?d1 = "[1, 2, 3, 200, 9, 9, 9, 77 :: byte]"
  let ?d2 = "[4, 5, 6, 100, 0, 0, 0, 77, 1, 1, 1, 1 :: byte]"
  have h: "4 * 1 + 3 < length ?d1 \<and> 4 * 1 + 3 < length ?d2 \<and> ?d1 ! (4 * 1 + 3) = ?d2 ! (4 * 1 + 3)"
    by simp
  note t = alpha_noninterference [of 1 ?d1 ?d2 "\<lambda>k. three_quarters" 0, THEN mp, OF h]
  have v: "clamp8 (new_alpha (Some (uint (?d1 ! (4 * 1 + 3)))) (noise ((\<lambda>k::nat. three_quarters) (0 + 1)))) = 78"
    by (simp add: noise_def times3_def Math_floor_def three_quarters_def new_alpha_def clamp8_def)
  from t [THEN conjunct2] v
  have a: "fst (alpha_loop (\<lambda>k. three_quarters) 0 ?d1 0 []) ! 7 = 78" by simp
  from t [THEN conjunct1]
  have e: "fst (alpha_loop (\<lambda>k. three_quarters) 0 ?d1 0 []) ! 7 =
      fst (alpha_loop (\<lambda>k. three_quarters) 0 ?d2 0 []) ! 7" by simp
  show ?thesis by (intro conjI) (simp_all add: a e [symmetric])
qed

subsection \<open>\<^verbatim>\<open>noisyFunction\<close>, case by case\<close>

lemma length_canvas_pixels [simp]: "length (canvas_pixels q d) = length d"
  by (induction q d rule: canvas_pixels.induct) simp_all

lemma canvas_pixels_alpha:
  "4 * m + 3 < length d \<Longrightarrow> canvas_pixels q d ! (4 * m + 3) = d ! (4 * m + 3)"
proof (induction q d arbitrary: m rule: canvas_pixels.induct)
  case (1 q r g b a rest)
  show ?case
  proof (cases m)
    case 0
    then show ?thesis by (simp add: eval_nat_numeral)
  next
    case (Suc m')
    with "1.prems" have "4 * m' + 3 < length rest" by simp
    from "1.IH" [OF this] have "canvas_pixels q rest ! (4 * m' + 3) = rest ! (4 * m' + 3)" .
    moreover have "4 * m + 3 = Suc (Suc (Suc (Suc (4 * m' + 3))))" using Suc by simp
    ultimately show ?thesis by (simp only: canvas_pixels.simps nth_Cons_Suc)
  qed
qed simp_all

lemma noisyFunction_skip:
  "ctx = None \<or> width (this p) = 0 \<or> height (this p) = 0 \<Longrightarrow> noisyFunction h g ctx p = (None, p)"
  by (auto simp: noisyFunction_def)

lemma noisyFunction_read_fails:
  assumes "ctx = Some c" "width (this p) \<noteq> 0" "height (this p) \<noteq> 0"
    and "read_error (this p) = Some e"
  shows "noisyFunction h NativeGetImageData ctx p = (Some e, called CalledGetImageData p)"
  using assms by (simp add: noisyFunction_def call_getImageData_def)

lemma noisyFunction_not_callable:
  assumes "ctx = Some c" "width (this p) \<noteq> 0" "height (this p) \<noteq> 0"
    and "g \<noteq> NativeGetImageData"
  shows "noisyFunction h g ctx p = (Some TypeError, p)"
  using assms by (cases g) (simp_all add: noisyFunction_def call_getImageData_def)

lemma noisyFunction_runs:
  assumes "ctx = Some c" "width (this p) \<noteq> 0" "height (this p) \<noteq> 0"
    and "read_error (this p) = None"
  shows "noisyFunction h NativeGetImageData ctx p =
    (write_error (this p),
     p\<lparr>this := (if write_error (this p) = None
                then (this p)\<lparr>bitmap := canvas_pixels (requantize h)
                       (fst (alpha_loop (random h) 0 (bitmap (this p)) (drawn p) []))\<rparr>
                else this p),
       drawn := fst (snd (alpha_loop (random h) 0 (bitmap (this p)) (drawn p) [])),
       events := events p @ [CalledGetImageData, CalledPutImageData]\<rparr>)"
  using assms
  by (simp add: noisyFunction_def call_getImageData_def putImageData_def called_def split_beta
      split: option.splits)

lemma noisyFunction_this:
  "this (snd (noisyFunction h g ctx p)) = this p \<or>
   this (snd (noisyFunction h g ctx p)) =
     (this p)\<lparr>bitmap := canvas_pixels (requantize h)
        (fst (alpha_loop (random h) 0 (bitmap (this p)) (drawn p) []))\<rparr>"
proof (cases "ctx = None \<or> width (this p) = 0 \<or> height (this p) = 0")
  case True
  then show ?thesis by (simp add: noisyFunction_skip)
next
  case False
  then obtain c where c: "ctx = Some c" "width (this p) \<noteq> 0" "height (this p) \<noteq> 0" by auto
  show ?thesis
  proof (cases "g = NativeGetImageData")
    case False
    then show ?thesis by (simp add: noisyFunction_not_callable [OF c])
  next
    case True
    show ?thesis
    proof (cases "read_error (this p)")
      case (Some e)
      then show ?thesis by (simp add: True noisyFunction_read_fails [OF c] called_def)
    next
      case None
      then show ?thesis by (simp add: True noisyFunction_runs [OF c])
    qed
  qed
qed



lemma opaque_step_byte:
  assumes "val r < 1"
  shows "(255::byte) + word_of_int (noise r) \<in> {254, 255, 0}"
  using noise_range [OF assms] by auto

lemma length_opaque_red: "length (opaque_red n) = 4 * n"
  by (induction n) simp_all

lemma opaque_red_alpha: "4 * m + 3 < length (opaque_red n) \<Longrightarrow> opaque_red n ! (4 * m + 3) = 255"
proof (induction n arbitrary: m)
  case 0
  then show ?case by simp
next
  case (Suc n)
  show ?case
  proof (cases m)
    case 0
    then show ?thesis by (simp add: eval_nat_numeral)
  next
    case (Suc m')
    with Suc.prems have "4 * m' + 3 < length (opaque_red n)" by simp
    from Suc.IH [OF this] have "opaque_red n ! (4 * m' + 3) = 255" .
    moreover have "4 * m + 3 = Suc (Suc (Suc (Suc (4 * m' + 3))))" using Suc by simp
    ultimately show ?thesis by (simp only: opaque_red.simps nth_Cons_Suc)
  qed
qed


lemma alpha_loop_one_pixel:
  assumes "length d = 4"
  shows "alpha_loop rnd 0 d k [] = (d[3 := d ! 3 + word_of_int (noise (rnd k))], Suc k, [3])"
proof -
  have lt: "0 < length d" using assms by simp
  have ex: "\<not> 0 + 4 < length (store d (0 + 3) (new_alpha (load d (0 + 3)) (noise (rnd k))))"
    using assms by simp
  show ?thesis
    unfolding alpha_loop_unfold [OF lt] alpha_loop_exit [OF ex]
    using assms by (simp add: store_def load_def new_alpha_def clamp8_and)
qed

lemma example_draws_below_one:
  "val zero < 1" "val one_half < 1" "val three_quarters < 1" "val nearest_third < 1"
  by (simp_all add: val_neg_expo val_nonneg_expo zero_def one_half_def three_quarters_def
      nearest_third_def)

subsection \<open>What one noise application changes\<close>



subsection \<open>A fully opaque canvas\<close>

text \<open>
  Claim C2, as the code has it. For a canvas whose every alpha byte is 255, after one
  call of \<^verbatim>\<open>noisyFunction\<close> every alpha byte is 254, 255 or 0: the noise +1 takes 255 to
  256, and \<^verbatim>\<open>256 & 255\<close> is 0.
\<close>

theorem opaque_alpha_after_noise:
  assumes "\<forall>k. val (random h k) < 1"
    and "\<forall>m. 4 * m + 3 < length (bitmap (this p)) \<longrightarrow> bitmap (this p) ! (4 * m + 3) = 255"
  shows "4 * m + 3 < length (bitmap (this p)) \<longrightarrow>
           bitmap (after_noise h g ctx p) ! (4 * m + 3) \<in> {254, 255, 0}"
proof
  let ?d = "bitmap (this p)"
  let ?l = "fst (alpha_loop (random h) 0 ?d (drawn p) [])"
  assume m: "4 * m + 3 < length ?d"
  with assms(2) have a: "?d ! (4 * m + 3) = 255" by blast
  have "?l ! (4 * m + 3) = 255 + word_of_int (noise (random h (drawn p + m)))"
    using alpha_loop_pixel [OF m, of "random h" "drawn p" "[]"] a by simp
  moreover have "255 + word_of_int (noise (random h (drawn p + m))) \<in> {254, 255, 0 :: byte}"
    using assms(1) by (intro opaque_step_byte) simp_all
  ultimately have l: "?l ! (4 * m + 3) \<in> {254, 255, 0}" by simp
  from noisyFunction_this [of h g ctx p]
  show "bitmap (after_noise h g ctx p) ! (4 * m + 3) \<in> {254, 255, 0}"
  proof
    assume "after_noise h g ctx p = this p"
    then show ?thesis using a by simp
  next
    assume "after_noise h g ctx p = (this p)\<lparr>bitmap := canvas_pixels (requantize h) ?l\<rparr>"
    then have "bitmap (after_noise h g ctx p) = canvas_pixels (requantize h) ?l" by simp
    moreover have "4 * m + 3 < length ?l" using m by (simp add: alpha_loop_length)
    ultimately have "bitmap (after_noise h g ctx p) ! (4 * m + 3) = ?l ! (4 * m + 3)"
      by (simp only: canvas_pixels_alpha)
    then show ?thesis using l by (simp only:)
  qed
qed

theorem opaque_alpha_after_noise_witness:
  "(\<forall>k. val (random (plain_host (\<lambda>k. one_half) :: (string list, byte list) host) k) < 1) \<and>
   4 * 99 + 3 < length (bitmap (this (native_page red_canvas :: string list page))) \<and>
   bitmap (this (native_page red_canvas :: string list page)) ! (4 * 99 + 3) = 255 \<and>
   bitmap (after_noise (plain_host (\<lambda>k. one_half) :: (string list, byte list) host)
     NativeGetImageData (Some Context2D) (native_page red_canvas)) ! (4 * 99 + 3) \<in> {254, 255, 0}"
proof -
  let ?h = "plain_host (\<lambda>k. one_half) :: (string list, byte list) host"
  let ?p = "native_page red_canvas :: string list page"
  have b: "bitmap (this ?p) = opaque_red 100" by (simp add: native_page_def red_canvas_def)
  have h1: "\<forall>k. val (random ?h k) < 1" by (simp add: plain_host_def example_draws_below_one)
  have h2: "\<forall>m. 4 * m + 3 < length (bitmap (this ?p)) \<longrightarrow> bitmap (this ?p) ! (4 * m + 3) = 255"
    unfolding b using opaque_red_alpha by blast
  have i: "4 * 99 + 3 < length (bitmap (this ?p))" unfolding b length_opaque_red by simp
  note t = opaque_alpha_after_noise [OF h1 h2, of 99 NativeGetImageData "Some Context2D", THEN mp, OF i]
  from h2 i have "bitmap (this ?p) ! (4 * 99 + 3) = 255" by blast
  with h1 i t show ?thesis by (intro conjI)
qed

text \<open>
  Claim C2 as stated fails: on the 10 by 10 opaque red canvas, when \<^verbatim>\<open>Math.random\<close>
  returns 0.75 the alpha byte of the first pixel becomes 0, which is neither 254 nor
  255.
\<close>

theorem opaque_red_alpha_wraps:
  "bitmap (this (native_page red_canvas :: string list page)) ! 3 = 255 \<and>
   bitmap (after_noise (plain_host (\<lambda>k. three_quarters) :: (string list, byte list) host)
     NativeGetImageData (Some Context2D) (native_page red_canvas)) ! 3 = 0 \<and>
   bitmap (after_noise (plain_host (\<lambda>k. three_quarters) :: (string list, byte list) host)
     NativeGetImageData (Some Context2D) (native_page red_canvas)) ! 3 \<notin> {254, 255}"
proof -
  let ?h = "plain_host (\<lambda>k. three_quarters) :: (string list, byte list) host"
  let ?p = "native_page red_canvas :: string list page"
  let ?l = "fst (alpha_loop (random ?h) 0 (opaque_red 100) (drawn ?p) [])"
  have b: "bitmap (this ?p) = opaque_red 100" by (simp add: native_page_def red_canvas_def)
  have i: "4 * 0 + 3 < length (opaque_red 100)" unfolding length_opaque_red by simp
  have a: "opaque_red 100 ! (4 * 0 + 3) = 255" using i by (rule opaque_red_alpha)
  have c: "Some Context2D = Some Context2D" "width (this ?p) \<noteq> 0" "height (this ?p) \<noteq> 0"
    "read_error (this ?p) = None"
    by (simp_all add: native_page_def red_canvas_def)
  have w: "write_error (this ?p) = None" by (simp add: native_page_def red_canvas_def)
  have e: "bitmap (after_noise ?h NativeGetImageData (Some Context2D) ?p) =
      canvas_pixels (requantize ?h) ?l"
    by (simp add: noisyFunction_runs [OF c] w b)
  have "4 * 0 + 3 < length ?l" using i by (simp only: alpha_loop_length)
  then have k: "canvas_pixels (requantize ?h) ?l ! (4 * 0 + 3) = ?l ! (4 * 0 + 3)"
    by (rule canvas_pixels_alpha)
  have "?l ! (4 * 0 + 3) =
      opaque_red 100 ! (4 * 0 + 3) + word_of_int (noise (random ?h (drawn ?p + 0)))"
    using i by (rule alpha_loop_pixel)
  moreover have "noise (random ?h (drawn ?p + 0)) = 1" by (simp add: plain_host_def noise_examples)
  ultimately have "?l ! (4 * 0 + 3) = 0" using a by simp
  with k e have "bitmap (after_noise ?h NativeGetImageData (Some Context2D) ?p) ! 3 = 0"
    by simp
  then show ?thesis using a b by simp
qed

subsection \<open>Installation and wrapper calls, case by case\<close>

lemma install_ok:
  assumes "\<forall>s. throws h s = None" and "\<forall>s. \<not> ignored h s"
  shows "install h p =
    p\<lparr>toDataURL_slot := Wrapper (getImageData_slot p) (toDataURL_slot p),
      toBlob_slot := Wrapper (getImageData_slot p) (toBlob_slot p)\<rparr>"
  using assms by (simp add: install_def try_block_def Let_def)

lemma export_slot_install:
  assumes "\<forall>s. throws h s = None" and "\<forall>s. \<not> ignored h s"
  shows "export_slot k (install h p) = Wrapper (getImageData_slot p) (export_slot k p)"
  by (cases k) (simp_all add: install_ok [OF assms] export_slot_def)

lemma install_frame:
  "this (install h p) = this p" "drawn (install h p) = drawn p" "events (install h p) = events p"
  "getImageData_slot (install h p) = getImageData_slot p"
  by (simp_all add: install_def try_block_def Let_def split: option.splits)

lemma export_slot_install_cases:
  "export_slot k (install h p) = export_slot k p \<or>
   export_slot k (install h p) = Wrapper (getImageData_slot p) (export_slot k p)"
  by (cases k) (simp_all add: install_def try_block_def export_slot_def Let_def split: option.splits)

lemma invoke_wrapper_skip:
  assumes "width (this p) = 0 \<or> height (this p) = 0 \<or> \<not> context2d (this p)"
  shows "invoke h (Wrapper g original) a p = invoke h original a (called CalledGetContext p)"
proof -
  have "fst (getContext p) = None \<or> width (this (snd (getContext p))) = 0 \<or>
      height (this (snd (getContext p))) = 0"
    using assms by (auto simp: getContext_def called_def)
  from noisyFunction_skip [OF this, of h g]
  have "noise_step h g p = (None, called CalledGetContext p)"
    by (simp add: noise_step_def split_beta) (simp add: getContext_def)
  then show ?thesis by (simp add: invoke.simps(4))
qed

lemma noise_step_read_fails:
  assumes "context2d (this p)" "width (this p) \<noteq> 0" "height (this p) \<noteq> 0"
    and "read_error (this p) = Some e"
  shows "noise_step h NativeGetImageData p =
    (Some e, p\<lparr>events := events p @ [CalledGetContext, CalledGetImageData]\<rparr>)"
proof -
  let ?q = "called CalledGetContext p"
  have "noisyFunction h NativeGetImageData (Some Context2D) ?q = (Some e, called CalledGetImageData ?q)"
    using assms by (intro noisyFunction_read_fails) (simp_all add: called_def)
  then show ?thesis using assms(1) by (simp add: noise_step_def getContext_def called_def)
qed

lemma noise_step_runs:
  assumes "context2d (this p)" "width (this p) \<noteq> 0" "height (this p) \<noteq> 0"
    and "read_error (this p) = None"
  shows "noise_step h NativeGetImageData p =
    (write_error (this p),
     p\<lparr>this := (if write_error (this p) = None
                then (this p)\<lparr>bitmap := canvas_pixels (requantize h)
                       (fst (alpha_loop (random h) 0 (bitmap (this p)) (drawn p) []))\<rparr>
                else this p),
       drawn := fst (snd (alpha_loop (random h) 0 (bitmap (this p)) (drawn p) [])),
       events := events p @ [CalledGetContext, CalledGetImageData, CalledPutImageData]\<rparr>)"
proof -
  let ?q = "called CalledGetContext p"
  have c: "Some Context2D = Some Context2D" "width (this ?q) \<noteq> 0" "height (this ?q) \<noteq> 0"
    "read_error (this ?q) = None"
    using assms by (simp_all add: called_def)
  show ?thesis using assms(1)
    by (simp add: noise_step_def getContext_def noisyFunction_runs [OF c]) (auto simp add: called_def)
qed

lemma invoke_wrapper_ok:
  assumes "fst (noise_step h g p) = None"
  shows "invoke h (Wrapper g original) a p = invoke h original a (snd (noise_step h g p))"
  using assms by (cases "noise_step h g p") (simp add: invoke.simps(4))

lemma invoke_wrapper_throws:
  assumes "fst (noise_step h g p) = Some e"
  shows "invoke h (Wrapper g original) a p = (Inl e, snd (noise_step h g p))"
  using assms by (cases "noise_step h g p") (simp add: invoke.simps(4))

lemma noise_step_skip:
  assumes "width (this p) = 0 \<or> height (this p) = 0 \<or> \<not> context2d (this p)"
  shows "noise_step h g p = (None, p\<lparr>events := events p @ [CalledGetContext]\<rparr>)"
proof -
  have "fst (getContext p) = None \<or> width (this (snd (getContext p))) = 0 \<or>
      height (this (snd (getContext p))) = 0"
    using assms by (auto simp: getContext_def called_def)
  from noisyFunction_skip [OF this, of h g] show ?thesis
    by (simp add: noise_step_def split_beta) (simp add: getContext_def called_def)
qed

lemma noise_step_not_callable:
  assumes "context2d (this p)" "width (this p) \<noteq> 0" "height (this p) \<noteq> 0"
    and "g \<noteq> NativeGetImageData"
  shows "noise_step h g p = (Some TypeError, p\<lparr>events := events p @ [CalledGetContext]\<rparr>)"
proof -
  let ?q = "called CalledGetContext p"
  have "noisyFunction h g (Some Context2D) ?q = (Some TypeError, ?q)"
    using assms by (intro noisyFunction_not_callable) (simp_all add: called_def)
  then show ?thesis using assms(1) by (simp add: noise_step_def getContext_def called_def)
qed

lemma noise_step_events:
  "events (snd (noise_step h g p)) = events p @ [CalledGetContext] \<or>
   events (snd (noise_step h g p)) = events p @ [CalledGetContext, CalledGetImageData] \<or>
   events (snd (noise_step h g p)) =
     events p @ [CalledGetContext, CalledGetImageData, CalledPutImageData]"
proof (cases "width (this p) = 0 \<or> height (this p) = 0 \<or> \<not> context2d (this p)")
  case True
  then show ?thesis by (simp add: noise_step_skip)
next
  case False
  then have c: "context2d (this p)" "width (this p) \<noteq> 0" "height (this p) \<noteq> 0" by simp_all
  show ?thesis
  proof (cases "g = NativeGetImageData")
    case False
    then show ?thesis by (simp add: noise_step_not_callable [OF c])
  next
    case True
    show ?thesis
    proof (cases "read_error (this p)")
      case (Some e)
      then show ?thesis by (simp add: True noise_step_read_fails [OF c])
    next
      case None
      then show ?thesis by (simp add: True noise_step_runs [OF c])
    qed
  qed
qed

lemma pixel_page_noise_step:
  assumes "length d = 4" and "this p = pixel_canvas d"
  shows "noise_step h NativeGetImageData p =
    (None,
     p\<lparr>this := (pixel_canvas d)\<lparr>bitmap := canvas_pixels (requantize h)
               (d[3 := d ! 3 + word_of_int (noise (random h (drawn p)))])\<rparr>,
       drawn := Suc (drawn p),
       events := events p @ [CalledGetContext, CalledGetImageData, CalledPutImageData]\<rparr>)"
proof -
  have c: "context2d (this p)" "width (this p) \<noteq> 0" "height (this p) \<noteq> 0"
    "read_error (this p) = None"
    using assms by (simp_all add: pixel_canvas_def)
  have w: "write_error (this p) = None" "bitmap (this p) = d"
    using assms by (simp_all add: pixel_canvas_def)
  show ?thesis
    unfolding noise_step_runs [OF c] w alpha_loop_one_pixel [OF assms(1)]
    by (simp add: assms(2))
qed

lemma unreadable_page:
  "context2d (this (native_page unreadable_canvas))"
  "width (this (native_page unreadable_canvas)) \<noteq> 0"
  "height (this (native_page unreadable_canvas)) \<noteq> 0"
  "read_error (this (native_page unreadable_canvas)) = Some RangeError"
  by (simp_all add: native_page_def unreadable_canvas_def pixel_canvas_def)

lemma unwritable_page:
  "context2d (this (native_page unwritable_canvas))"
  "width (this (native_page unwritable_canvas)) \<noteq> 0"
  "height (this (native_page unwritable_canvas)) \<noteq> 0"
  "read_error (this (native_page unwritable_canvas)) = None"
  "write_error (this (native_page unwritable_canvas)) = Some SecurityError"
  by (simp_all add: native_page_def unwritable_canvas_def pixel_canvas_def)

lemma plain_host_quiet:
  "\<forall>s. throws (plain_host rnd) s = None" "\<forall>s. \<not> ignored (plain_host rnd) s"
  by (simp_all add: plain_host_def)

lemma pixel_page:
  "context2d (this (native_page (pixel_canvas [10, 20, 30, 40])))"
  "width (this (native_page (pixel_canvas [10, 20, 30, 40]))) \<noteq> 0"
  "height (this (native_page (pixel_canvas [10, 20, 30, 40]))) \<noteq> 0"
  "read_error (this (native_page (pixel_canvas [10, 20, 30, 40]))) = None"
  "write_error (this (native_page (pixel_canvas [10, 20, 30, 40]))) = None"
  "bitmap (this (native_page (pixel_canvas [10, 20, 30, 40]))) = [10, 20, 30, 40]"
  "drawn (native_page (pixel_canvas [10, 20, 30, 40])) = 0"
  "events (native_page (pixel_canvas [10, 20, 30, 40])) = []"
  by (simp_all add: native_page_def pixel_canvas_def)

lemma pixel_after_zero_draw:
  "canvas_pixels (requantize (plain_host (\<lambda>k. zero)))
     (fst (alpha_loop (random (plain_host (\<lambda>k. zero))) 0 [10, 20, 30, 40] 0 [])) =
   [13, 20, 33, 39]"
  by (simp add: alpha_loop_one_pixel) (simp add: plain_host_def noise_examples premultiplied_def)

lemma plain_host_export: "native_export (plain_host rnd) k c a = Inr (bitmap c)"
  by (simp add: plain_host_def)

subsection \<open>Canvases without pixels or without a 2D context\<close>

text \<open>
  Claim C6. When the context is absent, or the width is 0, or the height is 0,
  \<^verbatim>\<open>noisyFunction\<close> returns at once and leaves the whole page as it was: no pixel read,
  no pixel write, no change of the canvas. A wrapper call on a canvas with width 0 or
  height 0 or without a 2D context calls \<^verbatim>\<open>getContext\<close> and then the native export, and
  gives what the native export gives on the unchanged canvas: the same as the native
  call made directly, also through the properties that the installation has patched.
\<close>

theorem degenerate_canvas_untouched:
  "(ctx = None \<or> width (this p) = 0 \<or> height (this p) = 0 \<longrightarrow>
      noisyFunction h g ctx p = (None, p)) \<and>
   (width (this p) = 0 \<or> height (this p) = 0 \<or> \<not> context2d (this p) \<longrightarrow>
      invoke h (Wrapper g (NativeExport k)) a p =
        (native_export h k (this p) a,
         p\<lparr>events := events p @ [CalledGetContext, CalledExport k a]\<rparr>) \<and>
      fst (invoke h (Wrapper g (NativeExport k)) a p) = fst (invoke h (NativeExport k) a p) \<and>
      ((\<forall>s. throws h s = None) \<and> export_slot k p = NativeExport k \<longrightarrow>
         fst (call_export h k a (install h p)) = fst (call_export h k a p)))"
proof (intro conjI impI)
  assume "ctx = None \<or> width (this p) = 0 \<or> height (this p) = 0"
  then show "noisyFunction h g ctx p = (None, p)" by (rule noisyFunction_skip)
next
  assume d: "width (this p) = 0 \<or> height (this p) = 0 \<or> \<not> context2d (this p)"
  show w: "invoke h (Wrapper g (NativeExport k)) a p =
        (native_export h k (this p) a,
         p\<lparr>events := events p @ [CalledGetContext, CalledExport k a]\<rparr>)"
    by (simp add: invoke_wrapper_skip [OF d] called_def)
  show "fst (invoke h (Wrapper g (NativeExport k)) a p) = fst (invoke h (NativeExport k) a p)"
    by (simp add: w)
  assume i: "(\<forall>s. throws h s = None) \<and> export_slot k p = NativeExport k"
  have d': "width (this (install h p)) = 0 \<or> height (this (install h p)) = 0 \<or>
      \<not> context2d (this (install h p))"
    using d by (simp add: install_frame)
  from export_slot_install_cases [of k h p]
  show "fst (call_export h k a (install h p)) = fst (call_export h k a p)"
  proof
    assume "export_slot k (install h p) = export_slot k p"
    then show ?thesis using i by (simp add: call_export_def install_frame)
  next
    assume "export_slot k (install h p) = Wrapper (getImageData_slot p) (export_slot k p)"
    then show ?thesis
      using i by (simp add: call_export_def invoke_wrapper_skip [OF d'] called_def install_frame)
  qed
qed

theorem degenerate_canvas_untouched_witness:
  "width (this (native_page empty_canvas :: string list page)) = 0 \<and>
   throws (plain_host (\<lambda>k. one_half) :: (string list, byte list) host) WriteToBlob = None \<and>
   export_slot ToBlob (native_page empty_canvas :: string list page) = NativeExport ToBlob \<and>
   noisyFunction (plain_host (\<lambda>k. one_half) :: (string list, byte list) host) NativeGetImageData
     (Some Context2D) (native_page empty_canvas) = (None, native_page empty_canvas) \<and>
   fst (call_export (plain_host (\<lambda>k. one_half)) ToBlob [''image/png'']
          (install (plain_host (\<lambda>k. one_half)) (native_page empty_canvas))) =
     fst (call_export (plain_host (\<lambda>k. one_half) :: (string list, byte list) host) ToBlob
          [''image/png''] (native_page empty_canvas)) \<and>
   fst (call_export (plain_host (\<lambda>k. one_half) :: (string list, byte list) host) ToBlob
          [''image/png''] (native_page empty_canvas)) = Inr []"
proof -
  let ?h = "plain_host (\<lambda>k. one_half) :: (string list, byte list) host"
  let ?p = "native_page empty_canvas :: string list page"
  have w: "width (this ?p) = 0" by (simp add: native_page_def empty_canvas_def)
  have t: "\<forall>s. throws ?h s = None" by (simp add: plain_host_def)
  have e: "export_slot ToBlob ?p = NativeExport ToBlob" by (simp add: export_slot_def native_page_def)
  note d = degenerate_canvas_untouched [of "Some Context2D" ?p ?h NativeGetImageData ToBlob "[''image/png'']"]
  have 1: "noisyFunction ?h NativeGetImageData (Some Context2D) ?p = (None, ?p)"
    using d [THEN conjunct1] w by blast
  have 2: "fst (call_export ?h ToBlob [''image/png''] (install ?h ?p)) =
      fst (call_export ?h ToBlob [''image/png''] ?p)"
    using d [THEN conjunct2] w t e by blast
  have 3: "fst (call_export ?h ToBlob [''image/png''] ?p) = Inr []"
    by (simp add: call_export_def e) (simp add: plain_host_def native_page_def empty_canvas_def)
  from w t e 1 2 3 show ?thesis by (intro conjI) simp_all
qed

subsection \<open>The wrapper forwards to the captured original\<close>

text \<open>
  Claim C5, as the code has it. In a call of a wrapper whose noise step returns without
  an exception, the wrapper first runs \<^verbatim>\<open>noisyFunction\<close> with the context that
  \<^verbatim>\<open>getContext\<close> of the receiver gives, then calls the captured original on the same
  receiver with the argument list of the caller, and its result is the result of that
  call: on a canvas with pixels that can be read and written, the native export sees
  the canvas after the write, and the browser calls are \<^verbatim>\<open>getContext\<close>, the pixel read,
  the pixel write and the export with the arguments of the caller, in this order. In a
  call whose noise step throws, the call ends with that exception on the page as the
  noise step left it; the noise step makes no export call, so the original is not
  called. After an installation in which no statement throws and both assignments take
  effect, a call of \<^verbatim>\<open>toDataURL\<close> or \<^verbatim>\<open>toBlob\<close> is a call of such a wrapper, whose captured
  original is the value the property held before.
\<close>

theorem wrapper_forwards:
  "(fst (noise_step h g p) = None \<longrightarrow>
      invoke h (Wrapper g original) a p = invoke h original a (snd (noise_step h g p)) \<and>
      invoke h (Wrapper g (NativeExport k)) a p =
        (native_export h k (this (snd (noise_step h g p))) a,
         called (CalledExport k a) (snd (noise_step h g p)))) \<and>
   (fst (noise_step h g p) = Some e \<longrightarrow>
      invoke h (Wrapper g original) a p = (Inl e, snd (noise_step h g p))) \<and>
   (events (snd (noise_step h g p)) = events p @ [CalledGetContext] \<or>
    events (snd (noise_step h g p)) = events p @ [CalledGetContext, CalledGetImageData] \<or>
    events (snd (noise_step h g p)) =
      events p @ [CalledGetContext, CalledGetImageData, CalledPutImageData]) \<and>
   (context2d (this p) \<and> width (this p) \<noteq> 0 \<and> height (this p) \<noteq> 0 \<and>
    read_error (this p) = None \<and> write_error (this p) = None \<longrightarrow>
      invoke h (Wrapper NativeGetImageData (NativeExport k)) a p =
        (native_export h k
           ((this p)\<lparr>bitmap := canvas_pixels (requantize h)
              (fst (alpha_loop (random h) 0 (bitmap (this p)) (drawn p) []))\<rparr>) a,
         p\<lparr>this := (this p)\<lparr>bitmap := canvas_pixels (requantize h)
                (fst (alpha_loop (random h) 0 (bitmap (this p)) (drawn p) []))\<rparr>,
           drawn := fst (snd (alpha_loop (random h) 0 (bitmap (this p)) (drawn p) [])),
           events := events p @ [CalledGetContext, CalledGetImageData, CalledPutImageData,
                                 CalledExport k a]\<rparr>)) \<and>
   ((\<forall>s. throws h s = None) \<and> (\<forall>s. \<not> ignored h s) \<longrightarrow>
      export_slot k (install h p) = Wrapper (getImageData_slot p) (export_slot k p) \<and>
      call_export h k a (install h p) =
        invoke h (Wrapper (getImageData_slot p) (export_slot k p)) a (install h p))"
proof (intro conjI impI)
  assume n: "fst (noise_step h g p) = None"
  show "invoke h (Wrapper g original) a p = invoke h original a (snd (noise_step h g p))"
    using n by (rule invoke_wrapper_ok)
  show "invoke h (Wrapper g (NativeExport k)) a p =
        (native_export h k (this (snd (noise_step h g p))) a,
         called (CalledExport k a) (snd (noise_step h g p)))"
    by (simp add: invoke_wrapper_ok [OF n])
next
  assume "fst (noise_step h g p) = Some e"
  then show "invoke h (Wrapper g original) a p = (Inl e, snd (noise_step h g p))"
    by (rule invoke_wrapper_throws)
next
  show "events (snd (noise_step h g p)) = events p @ [CalledGetContext] \<or>
    events (snd (noise_step h g p)) = events p @ [CalledGetContext, CalledGetImageData] \<or>
    events (snd (noise_step h g p)) =
      events p @ [CalledGetContext, CalledGetImageData, CalledPutImageData]"
    by (rule noise_step_events)
next
  assume "context2d (this p) \<and> width (this p) \<noteq> 0 \<and> height (this p) \<noteq> 0 \<and>
    read_error (this p) = None \<and> write_error (this p) = None"
  then have c: "context2d (this p)" "width (this p) \<noteq> 0" "height (this p) \<noteq> 0"
    "read_error (this p) = None" and w: "write_error (this p) = None" by simp_all
  note r = noise_step_runs [OF c, of h]
  have n: "fst (noise_step h NativeGetImageData p) = None" by (simp add: r w)
  show "invoke h (Wrapper NativeGetImageData (NativeExport k)) a p =
        (native_export h k
           ((this p)\<lparr>bitmap := canvas_pixels (requantize h)
              (fst (alpha_loop (random h) 0 (bitmap (this p)) (drawn p) []))\<rparr>) a,
         p\<lparr>this := (this p)\<lparr>bitmap := canvas_pixels (requantize h)
                (fst (alpha_loop (random h) 0 (bitmap (this p)) (drawn p) []))\<rparr>,
           drawn := fst (snd (alpha_loop (random h) 0 (bitmap (this p)) (drawn p) [])),
           events := events p @ [CalledGetContext, CalledGetImageData, CalledPutImageData,
                                 CalledExport k a]\<rparr>)"
    unfolding invoke_wrapper_ok [OF n] by (simp add: r w called_def)
next
  assume i: "(\<forall>s. throws h s = None) \<and> (\<forall>s. \<not> ignored h s)"
  then show s: "export_slot k (install h p) = Wrapper (getImageData_slot p) (export_slot k p)"
    by (intro export_slot_install) simp_all
  show "call_export h k a (install h p) =
        invoke h (Wrapper (getImageData_slot p) (export_slot k p)) a (install h p)"
    by (simp add: call_export_def s)
qed

theorem wrapper_forwards_witness:
  "context2d (this (native_page (pixel_canvas [10, 20, 30, 40]) :: string list page)) \<and>
   read_error (this (native_page (pixel_canvas [10, 20, 30, 40]) :: string list page)) = None \<and>
   write_error (this (native_page (pixel_canvas [10, 20, 30, 40]) :: string list page)) = None \<and>
   fst (invoke (plain_host (\<lambda>k. zero) :: (string list, byte list) host)
     (Wrapper NativeGetImageData (NativeExport ToBlob)) [''image/png'']
     (native_page (pixel_canvas [10, 20, 30, 40]))) = Inr [13, 20, 33, 39] \<and>
   events (snd (invoke (plain_host (\<lambda>k. zero) :: (string list, byte list) host)
     (Wrapper NativeGetImageData (NativeExport ToBlob)) [''image/png'']
     (native_page (pixel_canvas [10, 20, 30, 40])))) =
     [CalledGetContext, CalledGetImageData, CalledPutImageData,
      CalledExport ToBlob [''image/png'']] \<and>
   fst (noise_step (plain_host (\<lambda>k. zero) :: (string list, byte list) host) NativeGetImageData
     (native_page (pixel_canvas [10, 20, 30, 40]) :: string list page)) = None \<and>
   fst (noise_step (plain_host (\<lambda>k. zero) :: (string list, byte list) host) Undefined
     (native_page (pixel_canvas [10, 20, 30, 40]) :: string list page)) = Some TypeError \<and>
   invoke (plain_host (\<lambda>k. zero) :: (string list, byte list) host)
     (Wrapper Undefined (NativeExport ToBlob)) [''image/png'']
     (native_page (pixel_canvas [10, 20, 30, 40])) =
     (Inl TypeError, (native_page (pixel_canvas [10, 20, 30, 40]))\<lparr>events := [CalledGetContext]\<rparr>) \<and>
   export_slot ToDataURL (install (plain_host (\<lambda>k. zero) :: (string list, byte list) host)
     (native_page (pixel_canvas [10, 20, 30, 40]) :: string list page)) =
     Wrapper NativeGetImageData (NativeExport ToDataURL)"
proof -
  let ?h = "plain_host (\<lambda>k. zero) :: (string list, byte list) host"
  let ?p = "native_page (pixel_canvas [10, 20, 30, 40]) :: string list page"
  let ?a = "[''image/png'']"
  note t = wrapper_forwards [where h = ?h and p = ?p and a = ?a]
  have c: "context2d (this ?p) \<and> width (this ?p) \<noteq> 0 \<and> height (this ?p) \<noteq> 0 \<and>
      read_error (this ?p) = None \<and> write_error (this ?p) = None"
    by (simp add: pixel_page)
  note ex = t [where k = ToBlob, THEN conjunct2, THEN conjunct2, THEN conjunct2,
      THEN conjunct1, THEN mp, OF c]
  have r: "fst (invoke ?h (Wrapper NativeGetImageData (NativeExport ToBlob)) ?a ?p) =
      Inr [13, 20, 33, 39]"
    unfolding ex by (simp add: pixel_page pixel_after_zero_draw) (simp add: plain_host_def)
  have ev: "events (snd (invoke ?h (Wrapper NativeGetImageData (NativeExport ToBlob)) ?a ?p)) =
      [CalledGetContext, CalledGetImageData, CalledPutImageData, CalledExport ToBlob ?a]"
    unfolding ex by (simp add: pixel_page)
  have n: "fst (noise_step ?h NativeGetImageData ?p) = None"
    by (simp add: noise_step_runs pixel_page)
  note ok = t [where g = NativeGetImageData and original = "NativeExport ToBlob" and k = ToBlob,
      THEN conjunct1, THEN mp, OF n, THEN conjunct1]
  have u: "noise_step ?h Undefined ?p = (Some TypeError, ?p\<lparr>events := events ?p @ [CalledGetContext]\<rparr>)"
    by (rule noise_step_not_callable) (simp_all add: pixel_page)
  then have m: "fst (noise_step ?h Undefined ?p) = Some TypeError" by simp
  note th = t [where g = Undefined and e = TypeError and original = "NativeExport ToBlob",
      THEN conjunct2, THEN conjunct1, THEN mp, OF m]
  have thr: "invoke ?h (Wrapper Undefined (NativeExport ToBlob)) ?a ?p =
      (Inl TypeError, ?p\<lparr>events := [CalledGetContext]\<rparr>)"
    unfolding th u by (simp add: pixel_page)
  have q: "(\<forall>s. throws ?h s = None) \<and> (\<forall>s. \<not> ignored ?h s)" by (simp add: plain_host_quiet)
  note ins = t [where k = ToDataURL, THEN conjunct2, THEN conjunct2, THEN conjunct2,
      THEN conjunct2, THEN mp, OF q, THEN conjunct1]
  have sl: "export_slot ToDataURL (install ?h ?p) = Wrapper NativeGetImageData (NativeExport ToDataURL)"
    unfolding ins by (simp add: native_page_def export_slot_def)
  from c r ev n m thr sl ok show ?thesis by simp
qed

text \<open>
  Claim C5 as stated fails for the calls whose noise step throws. In a host whose
  \<^verbatim>\<open>CanvasRenderingContext2D.prototype\<close> has no \<^verbatim>\<open>getImageData\<close> the installation succeeds
  and captures \<^verbatim>\<open>undefined\<close>; a call of the patched \<^verbatim>\<open>toBlob\<close> on a canvas with pixels then
  ends with a TypeError after \<^verbatim>\<open>getContext\<close>, and the captured native \<^verbatim>\<open>toBlob\<close>, which
  would give the bytes, is never called.
\<close>

theorem wrapper_without_pixel_read_never_forwards:
  "getImageData_slot (install (plain_host (\<lambda>k. one_half) :: (string list, byte list) host)
     (page_without_pixel_read (pixel_canvas [10, 20, 30, 40]) :: string list page)) = Undefined \<and>
   toBlob_slot (install (plain_host (\<lambda>k. one_half) :: (string list, byte list) host)
     (page_without_pixel_read (pixel_canvas [10, 20, 30, 40]) :: string list page)) =
     Wrapper Undefined (NativeExport ToBlob) \<and>
   call_export (plain_host (\<lambda>k. one_half) :: (string list, byte list) host) ToBlob [''image/png'']
     (install (plain_host (\<lambda>k. one_half))
       (page_without_pixel_read (pixel_canvas [10, 20, 30, 40]))) =
     (Inl TypeError,
      (install (plain_host (\<lambda>k. one_half))
        (page_without_pixel_read (pixel_canvas [10, 20, 30, 40])))\<lparr>events := [CalledGetContext]\<rparr>) \<and>
   fst (invoke (plain_host (\<lambda>k. one_half) :: (string list, byte list) host) (NativeExport ToBlob)
     [''image/png''] (install (plain_host (\<lambda>k. one_half))
       (page_without_pixel_read (pixel_canvas [10, 20, 30, 40])))) = Inr [10, 20, 30, 40]"
proof -
  let ?h = "plain_host (\<lambda>k. one_half) :: (string list, byte list) host"
  let ?p = "page_without_pixel_read (pixel_canvas [10, 20, 30, 40]) :: string list page"
  let ?q = "install ?h ?p"
  note t = plain_host_quiet [of "\<lambda>k. one_half"]
  have q: "?q = ?p\<lparr>toDataURL_slot := Wrapper Undefined (NativeExport ToDataURL),
      toBlob_slot := Wrapper Undefined (NativeExport ToBlob)\<rparr>"
    by (simp add: install_ok [OF t] page_without_pixel_read_def native_page_def)
  have g: "getImageData_slot ?q = Undefined"
    by (simp add: install_frame page_without_pixel_read_def)
  have b: "toBlob_slot ?q = Wrapper Undefined (NativeExport ToBlob)" by (simp add: q)
  have th: "this ?q = pixel_canvas [10, 20, 30, 40]" "events ?q = []"
    by (simp_all add: install_frame page_without_pixel_read_def native_page_def)
  have w: "width (this ?q) \<noteq> 0" "height (this ?q) \<noteq> 0" "context2d (this ?q)"
    unfolding th by (simp_all add: pixel_canvas_def)
  have "noisyFunction ?h Undefined (Some Context2D) (called CalledGetContext ?q) =
      (Some TypeError, called CalledGetContext ?q)"
    by (rule noisyFunction_not_callable) (simp_all add: called_def w)
  then have n: "noise_step ?h Undefined ?q = (Some TypeError, called CalledGetContext ?q)"
    by (simp add: noise_step_def getContext_def w)
  then have "fst (noise_step ?h Undefined ?q) = Some TypeError" by simp
  from invoke_wrapper_throws [OF this, of "NativeExport ToBlob" "[''image/png'']"]
  have c: "call_export ?h ToBlob [''image/png''] ?q = (Inl TypeError, ?q\<lparr>events := [CalledGetContext]\<rparr>)"
    by (simp add: call_export_def export_slot_def b n called_def th)
  have d: "fst (invoke ?h (NativeExport ToBlob) [''image/png''] ?q) = Inr [10, 20, 30, 40]"
    by (simp add: th) (simp add: plain_host_def pixel_canvas_def)
  from g b c d show ?thesis by (intro conjI)
qed

subsection \<open>An exception of the noise step\<close>

text \<open>
  Claim C1, as the code has it. The wrapper has no handler: when the pixel read or the
  pixel write inside \<^verbatim>\<open>noisyFunction\<close> throws, the call of the wrapper ends with that
  exception. Nothing is written to the console, the captured original is not called
  (the page records no export call), and the canvas is as it was.
\<close>

theorem noise_exception_propagates:
  "(fst (noise_step h g p) = Some e \<longrightarrow>
      invoke h (Wrapper g original) a p = (Inl e, snd (noise_step h g p))) \<and>
   (context2d (this p) \<and> width (this p) \<noteq> 0 \<and> height (this p) \<noteq> 0 \<and>
    read_error (this p) = Some e \<longrightarrow>
      invoke h (Wrapper NativeGetImageData original) a p =
        (Inl e, p\<lparr>events := events p @ [CalledGetContext, CalledGetImageData]\<rparr>)) \<and>
   (context2d (this p) \<and> width (this p) \<noteq> 0 \<and> height (this p) \<noteq> 0 \<and>
    read_error (this p) = None \<and> write_error (this p) = Some e \<longrightarrow>
      invoke h (Wrapper NativeGetImageData original) a p =
        (Inl e,
         p\<lparr>drawn := fst (snd (alpha_loop (random h) 0 (bitmap (this p)) (drawn p) [])),
           events := events p @ [CalledGetContext, CalledGetImageData, CalledPutImageData]\<rparr>))"
proof (intro conjI impI)
  assume "fst (noise_step h g p) = Some e"
  then show "invoke h (Wrapper g original) a p = (Inl e, snd (noise_step h g p))"
    by (rule invoke_wrapper_throws)
next
  assume "context2d (this p) \<and> width (this p) \<noteq> 0 \<and> height (this p) \<noteq> 0 \<and>
    read_error (this p) = Some e"
  then have c: "context2d (this p)" "width (this p) \<noteq> 0" "height (this p) \<noteq> 0"
    "read_error (this p) = Some e" by simp_all
  note n = noise_step_read_fails [OF c, of h]
  have "fst (noise_step h NativeGetImageData p) = Some e" by (simp add: n)
  from invoke_wrapper_throws [OF this, of original a]
  show "invoke h (Wrapper NativeGetImageData original) a p =
        (Inl e, p\<lparr>events := events p @ [CalledGetContext, CalledGetImageData]\<rparr>)"
    by (simp add: n)
next
  assume "context2d (this p) \<and> width (this p) \<noteq> 0 \<and> height (this p) \<noteq> 0 \<and>
    read_error (this p) = None \<and> write_error (this p) = Some e"
  then have c: "context2d (this p)" "width (this p) \<noteq> 0" "height (this p) \<noteq> 0"
    "read_error (this p) = None" and w: "write_error (this p) = Some e" by simp_all
  note n = noise_step_runs [OF c, of h]
  have "fst (noise_step h NativeGetImageData p) = Some e" by (simp add: n w)
  from invoke_wrapper_throws [OF this, of original a]
  show "invoke h (Wrapper NativeGetImageData original) a p =
        (Inl e,
         p\<lparr>drawn := fst (snd (alpha_loop (random h) 0 (bitmap (this p)) (drawn p) [])),
           events := events p @ [CalledGetContext, CalledGetImageData, CalledPutImageData]\<rparr>)"
    by (simp add: n w)
qed

theorem noise_exception_propagates_witness:
  "context2d (this (native_page unreadable_canvas :: string list page)) \<and>
   width (this (native_page unreadable_canvas :: string list page)) \<noteq> 0 \<and>
   height (this (native_page unreadable_canvas :: string list page)) \<noteq> 0 \<and>
   read_error (this (native_page unreadable_canvas :: string list page)) = Some RangeError \<and>
   invoke (plain_host (\<lambda>k. one_half) :: (string list, byte list) host)
     (Wrapper NativeGetImageData (NativeExport ToBlob)) [] (native_page unreadable_canvas) =
     (Inl RangeError,
      (native_page unreadable_canvas)\<lparr>events := [CalledGetContext, CalledGetImageData]\<rparr>) \<and>
   fst (noise_step (plain_host (\<lambda>k. one_half) :: (string list, byte list) host) Undefined
     (native_page unreadable_canvas :: string list page)) = Some TypeError \<and>
   fst (invoke (plain_host (\<lambda>k. one_half) :: (string list, byte list) host)
     (Wrapper Undefined (NativeExport ToBlob)) [] (native_page unreadable_canvas)) = Inl TypeError \<and>
   read_error (this (native_page unwritable_canvas :: string list page)) = None \<and>
   write_error (this (native_page unwritable_canvas :: string list page)) = Some SecurityError \<and>
   fst (invoke (plain_host (\<lambda>k. one_half) :: (string list, byte list) host)
     (Wrapper NativeGetImageData (NativeExport ToBlob)) [] (native_page unwritable_canvas)) =
     Inl SecurityError \<and>
   events (snd (invoke (plain_host (\<lambda>k. one_half) :: (string list, byte list) host)
     (Wrapper NativeGetImageData (NativeExport ToBlob)) [] (native_page unwritable_canvas))) =
     [CalledGetContext, CalledGetImageData, CalledPutImageData] \<and>
   this (snd (invoke (plain_host (\<lambda>k. one_half) :: (string list, byte list) host)
     (Wrapper NativeGetImageData (NativeExport ToBlob)) [] (native_page unwritable_canvas))) =
     unwritable_canvas"
proof -
  let ?h = "plain_host (\<lambda>k. one_half) :: (string list, byte list) host"
  let ?p = "native_page unreadable_canvas :: string list page"
  let ?w = "native_page unwritable_canvas :: string list page"
  have c: "context2d (this ?p) \<and> width (this ?p) \<noteq> 0 \<and> height (this ?p) \<noteq> 0 \<and>
      read_error (this ?p) = Some RangeError"
    by (simp add: unreadable_page)
  note t = noise_exception_propagates [where p = ?p and e = RangeError and h = ?h
      and original = "NativeExport ToBlob" and a = "[]",
      THEN conjunct2, THEN conjunct1, THEN mp, OF c]
  have "events ?p = []" by (simp add: native_page_def)
  with t have 1: "invoke ?h (Wrapper NativeGetImageData (NativeExport ToBlob)) [] ?p =
     (Inl RangeError, ?p\<lparr>events := [CalledGetContext, CalledGetImageData]\<rparr>)"
    by simp
  have "noisyFunction ?h Undefined (Some Context2D) (called CalledGetContext ?p) =
      (Some TypeError, called CalledGetContext ?p)"
    by (rule noisyFunction_not_callable) (simp_all add: called_def unreadable_page)
  then have n: "fst (noise_step ?h Undefined ?p) = Some TypeError"
    by (simp add: noise_step_def getContext_def unreadable_page)
  note u = noise_exception_propagates [where p = ?p and e = TypeError and h = ?h
      and g = Undefined and original = "NativeExport ToBlob" and a = "[]",
      THEN conjunct1, THEN mp, OF n]
  then have 2: "fst (invoke ?h (Wrapper Undefined (NativeExport ToBlob)) [] ?p) = Inl TypeError"
    by simp
  have d: "context2d (this ?w) \<and> width (this ?w) \<noteq> 0 \<and> height (this ?w) \<noteq> 0 \<and>
      read_error (this ?w) = None \<and> write_error (this ?w) = Some SecurityError"
    by (simp add: unwritable_page)
  note v = noise_exception_propagates [where p = ?w and e = SecurityError and h = ?h
      and original = "NativeExport ToBlob" and a = "[]",
      THEN conjunct2, THEN conjunct2, THEN mp, OF d]
  have 3: "fst (invoke ?h (Wrapper NativeGetImageData (NativeExport ToBlob)) [] ?w) =
      Inl SecurityError"
    "events (snd (invoke ?h (Wrapper NativeGetImageData (NativeExport ToBlob)) [] ?w)) =
      [CalledGetContext, CalledGetImageData, CalledPutImageData]"
    "this (snd (invoke ?h (Wrapper NativeGetImageData (NativeExport ToBlob)) [] ?w)) =
      unwritable_canvas"
    unfolding v by (simp_all add: native_page_def)
  from c 1 n 2 d 3 show ?thesis by simp
qed

text \<open>
  Claim C1 as stated fails: on a canvas whose pixel read throws a RangeError while the
  native export succeeds, the patched \<^verbatim>\<open>toDataURL\<close> gives the RangeError where the native
  one gives the bytes; the native export is never called and the console stays empty.
\<close>

theorem noise_exception_replaces_export_outcome:
  "fst (call_export (plain_host (\<lambda>k. one_half) :: (string list, byte list) host) ToDataURL []
     (install (plain_host (\<lambda>k. one_half)) (native_page unreadable_canvas))) = Inl RangeError \<and>
   fst (call_export (plain_host (\<lambda>k. one_half) :: (string list, byte list) host) ToDataURL []
     (native_page unreadable_canvas)) = Inr [10, 20, 30, 40] \<and>
   events (snd (call_export (plain_host (\<lambda>k. one_half) :: (string list, byte list) host) ToDataURL []
     (install (plain_host (\<lambda>k. one_half)) (native_page unreadable_canvas)))) =
     [CalledGetContext, CalledGetImageData] \<and>
   console (snd (call_export (plain_host (\<lambda>k. one_half) :: (string list, byte list) host) ToDataURL []
     (install (plain_host (\<lambda>k. one_half)) (native_page unreadable_canvas)))) = []"
proof -
  let ?h = "plain_host (\<lambda>k. one_half) :: (string list, byte list) host"
  let ?p = "native_page unreadable_canvas :: string list page"
  let ?q = "install ?h ?p"
  note t = plain_host_quiet [of "\<lambda>k. one_half"]
  have s: "export_slot ToDataURL ?q = Wrapper NativeGetImageData (NativeExport ToDataURL)"
    by (simp add: export_slot_install [OF t]) (simp add: export_slot_def native_page_def)
  have c: "context2d (this ?q)" "width (this ?q) \<noteq> 0" "height (this ?q) \<noteq> 0"
    "read_error (this ?q) = Some RangeError"
    by (simp_all add: install_frame unreadable_page)
  note n = noise_step_read_fails [OF c, of ?h]
  have "fst (noise_step ?h NativeGetImageData ?q) = Some RangeError" by (simp add: n)
  from invoke_wrapper_throws [OF this, of "NativeExport ToDataURL" "[]"]
  have r: "call_export ?h ToDataURL [] ?q =
      (Inl RangeError, ?q\<lparr>events := events ?q @ [CalledGetContext, CalledGetImageData]\<rparr>)"
    by (simp add: call_export_def s n)
  have q: "events ?q = []" "console ?q = []"
    by (simp_all add: install_ok [OF t] native_page_def)
  have nat: "fst (call_export ?h ToDataURL [] ?p) = Inr [10, 20, 30, 40]"
    by (simp add: call_export_def export_slot_def native_page_def plain_host_def
        unreadable_canvas_def pixel_canvas_def)
  show ?thesis unfolding r by (simp add: q nat)
qed

subsection \<open>Running the script twice\<close>

lemma twice_example:
  fixes h :: "(string list, byte list) host" and p :: "string list page"
  defines "h \<equiv> plain_host (\<lambda>k. zero)"
    and "p \<equiv> native_page (pixel_canvas [10, 20, 30, 40])"
  shows "(\<forall>s. throws h s = None) \<and> (\<forall>s. \<not> ignored h s)"
    and "getImageData_slot p = NativeGetImageData"
    and "export_slot ToDataURL p = NativeExport ToDataURL"
    and "fst (noise_step h NativeGetImageData (install h (install h p))) = None"
    and "fst (noise_step h NativeGetImageData
           (snd (noise_step h NativeGetImageData (install h (install h p))))) = None"
    and "bitmap (this (snd (noise_step h NativeGetImageData
           (snd (noise_step h NativeGetImageData (install h (install h p))))))) =
         [13, 20, 34, 38]"
    and "events (snd (noise_step h NativeGetImageData
           (snd (noise_step h NativeGetImageData (install h (install h p)))))) =
         [CalledGetContext, CalledGetImageData, CalledPutImageData,
          CalledGetContext, CalledGetImageData, CalledPutImageData]"
proof -
  let ?q2 = "install h (install h p)"
  show t: "(\<forall>s. throws h s = None) \<and> (\<forall>s. \<not> ignored h s)"
    by (simp add: h_def plain_host_quiet)
  show "getImageData_slot p = NativeGetImageData" "export_slot ToDataURL p = NativeExport ToDataURL"
    by (simp_all add: p_def native_page_def export_slot_def)
  have nz: "noise (random h k) = - 1" for k by (simp add: h_def plain_host_def noise_examples)
  have rq: "requantize h = premultiplied" by (simp add: h_def plain_host_def)
  have l: "length [10, 20, 30, 40 :: byte] = 4" "length [13, 20, 33, 39 :: byte] = 4" by simp_all
  have th2: "this ?q2 = pixel_canvas [10, 20, 30, 40]" "events ?q2 = []"
    by (simp_all add: install_frame p_def native_page_def)
  note a2 = pixel_page_noise_step [OF l(1) th2(1), of h]
  let ?m = "snd (noise_step h NativeGetImageData ?q2)"
  have m: "this ?m = pixel_canvas [13, 20, 33, 39]"
    "events ?m = [CalledGetContext, CalledGetImageData, CalledPutImageData]"
    by (simp_all add: a2 nz rq th2) (simp add: premultiplied_def pixel_canvas_def)
  note b2 = pixel_page_noise_step [OF l(2) m(1), of h]
  show "fst (noise_step h NativeGetImageData ?q2) = None" by (simp add: a2)
  show "fst (noise_step h NativeGetImageData ?m) = None" by (simp add: b2)
  show "bitmap (this (snd (noise_step h NativeGetImageData ?m))) = [13, 20, 34, 38]"
    by (simp add: b2 nz rq) (simp add: premultiplied_def)
  show "events (snd (noise_step h NativeGetImageData ?m)) =
      [CalledGetContext, CalledGetImageData, CalledPutImageData,
       CalledGetContext, CalledGetImageData, CalledPutImageData]"
    by (simp add: b2 m)
qed

text \<open>
  Claim C3, as the code has it. The script keeps no record of having run. When no
  statement throws and every assignment takes effect, a second run reads the wrappers
  of the first run as its originals and wraps them again: each export property then
  holds a wrapper around a wrapper around the value it held at first, and a call whose
  two noise steps return without an exception runs \<^verbatim>\<open>noisyFunction\<close> twice before the
  first value is called, once, with the arguments of the caller.
\<close>

theorem install_twice_wraps_twice:
  "(\<forall>s. throws h s = None) \<and> (\<forall>s. \<not> ignored h s) \<longrightarrow>
     export_slot k (install h (install h p)) =
       Wrapper (getImageData_slot p) (Wrapper (getImageData_slot p) (export_slot k p)) \<and>
     (fst (noise_step h (getImageData_slot p) (install h (install h p))) = None \<and>
      fst (noise_step h (getImageData_slot p)
            (snd (noise_step h (getImageData_slot p) (install h (install h p))))) = None \<longrightarrow>
        call_export h k a (install h (install h p)) =
          invoke h (export_slot k p) a
            (snd (noise_step h (getImageData_slot p)
                   (snd (noise_step h (getImageData_slot p) (install h (install h p)))))))"
proof (intro impI conjI)
  assume "(\<forall>s. throws h s = None) \<and> (\<forall>s. \<not> ignored h s)"
  then have t: "\<forall>s. throws h s = None" "\<forall>s. \<not> ignored h s" by simp_all
  show s: "export_slot k (install h (install h p)) =
       Wrapper (getImageData_slot p) (Wrapper (getImageData_slot p) (export_slot k p))"
    by (simp add: export_slot_install [OF t] install_frame)
  let ?g = "getImageData_slot p"
  let ?q = "install h (install h p)"
  assume "fst (noise_step h ?g ?q) = None \<and> fst (noise_step h ?g (snd (noise_step h ?g ?q))) = None"
  then have n1: "fst (noise_step h ?g ?q) = None"
    and n2: "fst (noise_step h ?g (snd (noise_step h ?g ?q))) = None" by simp_all
  show "call_export h k a ?q =
      invoke h (export_slot k p) a (snd (noise_step h ?g (snd (noise_step h ?g ?q))))"
    unfolding call_export_def s
    by (simp only: invoke_wrapper_ok [OF n1] invoke_wrapper_ok [OF n2])
qed

theorem install_twice_wraps_twice_witness:
  "throws (plain_host (\<lambda>k. zero) :: (string list, byte list) host) ReadToDataURL = None \<and>
   \<not> ignored (plain_host (\<lambda>k. zero) :: (string list, byte list) host) WriteToDataURL \<and>
   export_slot ToDataURL (install (plain_host (\<lambda>k. zero) :: (string list, byte list) host)
       (install (plain_host (\<lambda>k. zero)) (native_page (pixel_canvas [10, 20, 30, 40])))) =
     Wrapper NativeGetImageData (Wrapper NativeGetImageData (NativeExport ToDataURL)) \<and>
   fst (noise_step (plain_host (\<lambda>k. zero) :: (string list, byte list) host) NativeGetImageData
       (install (plain_host (\<lambda>k. zero))
         (install (plain_host (\<lambda>k. zero)) (native_page (pixel_canvas [10, 20, 30, 40]))))) = None \<and>
   fst (call_export (plain_host (\<lambda>k. zero) :: (string list, byte list) host) ToDataURL []
       (install (plain_host (\<lambda>k. zero))
         (install (plain_host (\<lambda>k. zero)) (native_page (pixel_canvas [10, 20, 30, 40]))))) =
     Inr [13, 20, 34, 38]"
proof -
  let ?h = "plain_host (\<lambda>k. zero) :: (string list, byte list) host"
  let ?p = "native_page (pixel_canvas [10, 20, 30, 40]) :: string list page"
  note x = twice_example
  note c = install_twice_wraps_twice [where h = ?h and p = ?p and k = ToDataURL and a = "[]",
      THEN mp, OF x(1), unfolded x(2) x(3)]
  from x(4) x(5) have "fst (noise_step ?h NativeGetImageData (install ?h (install ?h ?p))) = None \<and>
      fst (noise_step ?h NativeGetImageData
        (snd (noise_step ?h NativeGetImageData (install ?h (install ?h ?p))))) = None"
    by simp
  note d = c [THEN conjunct2, THEN mp, OF this]
  have "fst (call_export ?h ToDataURL [] (install ?h (install ?h ?p))) = Inr [13, 20, 34, 38]"
    unfolding d by (simp add: plain_host_export x(6))
  with c [THEN conjunct1] x(1) x(4) show ?thesis by simp
qed

text \<open>
  Claim C3 as stated fails: after two runs on a fresh page, the original captured by
  the outer \<^verbatim>\<open>toDataURL\<close> wrapper is a wrapper and not the native function, and one call
  reads and writes the pixels twice; with \<^verbatim>\<open>Math.random\<close> returning 0 the alpha byte 40
  is exported as 38, two steps away.
\<close>

theorem second_install_wraps_again:
  "toDataURL_slot (install (plain_host (\<lambda>k. zero) :: (string list, byte list) host)
       (install (plain_host (\<lambda>k. zero)) (native_page (pixel_canvas [10, 20, 30, 40])))) =
     Wrapper NativeGetImageData (Wrapper NativeGetImageData (NativeExport ToDataURL)) \<and>
   fst (call_export (plain_host (\<lambda>k. zero) :: (string list, byte list) host) ToDataURL []
       (install (plain_host (\<lambda>k. zero))
         (install (plain_host (\<lambda>k. zero)) (native_page (pixel_canvas [10, 20, 30, 40]))))) =
     Inr [13, 20, 34, 38] \<and>
   events (snd (call_export (plain_host (\<lambda>k. zero) :: (string list, byte list) host) ToDataURL []
       (install (plain_host (\<lambda>k. zero))
         (install (plain_host (\<lambda>k. zero)) (native_page (pixel_canvas [10, 20, 30, 40])))))) =
     [CalledGetContext, CalledGetImageData, CalledPutImageData,
      CalledGetContext, CalledGetImageData, CalledPutImageData, CalledExport ToDataURL []]"
proof -
  let ?h = "plain_host (\<lambda>k. zero) :: (string list, byte list) host"
  let ?p = "native_page (pixel_canvas [10, 20, 30, 40]) :: string list page"
  let ?q2 = "install ?h (install ?h ?p)"
  let ?m = "snd (noise_step ?h NativeGetImageData ?q2)"
  note x = twice_example
  have s2: "export_slot ToDataURL ?q2 =
      Wrapper NativeGetImageData (Wrapper NativeGetImageData (NativeExport ToDataURL))"
    by (simp add: export_slot_install [OF x(1) [THEN conjunct1] x(1) [THEN conjunct2]] install_frame x(2) x(3))
  have c2: "call_export ?h ToDataURL [] ?q2 =
      invoke ?h (NativeExport ToDataURL) [] (snd (noise_step ?h NativeGetImageData ?m))"
    unfolding call_export_def s2
    by (simp only: invoke_wrapper_ok [OF x(4)] invoke_wrapper_ok [OF x(5)])
  have r2: "fst (call_export ?h ToDataURL [] ?q2) = Inr [13, 20, 34, 38]"
    unfolding c2 by (simp add: plain_host_export x(6))
  have e2: "events (snd (call_export ?h ToDataURL [] ?q2)) =
      [CalledGetContext, CalledGetImageData, CalledPutImageData,
       CalledGetContext, CalledGetImageData, CalledPutImageData, CalledExport ToDataURL []]"
    unfolding c2 by (simp add: x(7) called_def)
  have d2: "toDataURL_slot ?q2 =
      Wrapper NativeGetImageData (Wrapper NativeGetImageData (NativeExport ToDataURL))"
    using s2 by (simp add: export_slot_def)
  from d2 r2 e2 show ?thesis by (intro conjI)
qed

subsection \<open>A failing installation\<close>

lemma install_early_failure:
  assumes "throws h ReadGetImageData = Some e \<or>
     (throws h ReadGetImageData = None \<and>
       (throws h ReadToDataURL = Some e \<or>
         (throws h ReadToDataURL = None \<and> throws h WriteToDataURL = Some e)))"
  shows "install h p = p\<lparr>console := console p @ [e]\<rparr>"
  using assms by (auto simp: install_def try_block_def Let_def)

lemma try_block_failure:
  assumes "fst (try_block h p) = Some e"
  shows "console (install h p) = console p @ [e]"
    and "toBlob_slot (install h p) = toBlob_slot p"
    and "toDataURL_slot (install h p) = toDataURL_slot p \<or>
         toDataURL_slot (install h p) = Wrapper (getImageData_slot p) (toDataURL_slot p)"
  using assms
  by (auto simp: install_def try_block_def Let_def split: option.splits)

lemma blob_locked_throws:
  "throws (blob_locked_host rnd) ReadGetImageData = None"
  "throws (blob_locked_host rnd) ReadToDataURL = None"
  "throws (blob_locked_host rnd) WriteToDataURL = None"
  "throws (blob_locked_host rnd) ReadToBlob = None"
  "throws (blob_locked_host rnd) WriteToBlob = Some TypeError"
  by (simp_all add: blob_locked_host_def)

lemma native_page_slots:
  "getImageData_slot (native_page c) = NativeGetImageData"
  "toDataURL_slot (native_page c) = NativeExport ToDataURL"
  "toBlob_slot (native_page c) = NativeExport ToBlob"
  "console (native_page c) = []"
  by (simp_all add: native_page_def)

lemma blob_locked_ignores: "\<not> ignored (blob_locked_host rnd) s"
  by (simp add: blob_locked_host_def plain_host_def)

lemma read_only_host:
  "\<forall>s. throws (read_only_toDataURL_host rnd) s = None"
  "ignored (read_only_toDataURL_host rnd) WriteToDataURL"
  "\<not> ignored (read_only_toDataURL_host rnd) WriteToBlob"
  by (simp_all add: read_only_toDataURL_host_def plain_host_def)

lemma install_late_failure:
  assumes "throws h ReadGetImageData = None" "throws h ReadToDataURL = None"
    "throws h WriteToDataURL = None"
    and "throws h ReadToBlob = Some e \<or> (throws h ReadToBlob = None \<and> throws h WriteToBlob = Some e)"
  shows "install h p =
    (if ignored h WriteToDataURL then p
     else p\<lparr>toDataURL_slot := Wrapper (getImageData_slot p) (toDataURL_slot p)\<rparr>)
    \<lparr>console := console p @ [e]\<rparr>"
  using assms by (auto simp: install_def try_block_def Let_def)

lemma install_no_throw:
  assumes "\<forall>s. throws h s = None"
  shows "console (install h p) = console p"
    and "toDataURL_slot (install h p) =
      (if ignored h WriteToDataURL then toDataURL_slot p
       else Wrapper (getImageData_slot p) (toDataURL_slot p))"
    and "toBlob_slot (install h p) =
      (if ignored h WriteToBlob then toBlob_slot p
       else Wrapper (getImageData_slot p) (toBlob_slot p))"
  using assms by (simp_all add: install_def try_block_def Let_def)

text \<open>
  Claim C7, as the code has it. When a statement of the installation throws, the
  \<^verbatim>\<open>catch\<close> clause writes the exception to the console and the script ends normally
  (\<open>install\<close> always gives a page). \<^verbatim>\<open>toBlob\<close> then keeps its value. When the statement
  that throws is the read of \<^verbatim>\<open>getImageData\<close>, the read of \<^verbatim>\<open>toDataURL\<close> or the assignment
  to \<^verbatim>\<open>toDataURL\<close>, the page is as before but for the console line. When it is the read
  of \<^verbatim>\<open>toBlob\<close> or the assignment to \<^verbatim>\<open>toBlob\<close>, the assignment to \<^verbatim>\<open>toDataURL\<close> has already
  been made and, unless the host ignored it, stays: nothing undoes it. An assignment
  that the host ignores is no failure: when no statement throws, nothing is written to
  the console, and each of the two properties is patched exactly when the host did not
  ignore the assignment to it.
\<close>

theorem install_failure_contained:
  "(fst (try_block h p) = Some e \<longrightarrow>
      console (install h p) = console p @ [e] \<and>
      toBlob_slot (install h p) = toBlob_slot p \<and>
      (toDataURL_slot (install h p) = toDataURL_slot p \<or>
       toDataURL_slot (install h p) = Wrapper (getImageData_slot p) (toDataURL_slot p))) \<and>
   (throws h ReadGetImageData = Some e \<or>
     (throws h ReadGetImageData = None \<and>
       (throws h ReadToDataURL = Some e \<or>
         (throws h ReadToDataURL = None \<and> throws h WriteToDataURL = Some e))) \<longrightarrow>
      install h p = p\<lparr>console := console p @ [e]\<rparr>) \<and>
   (throws h ReadGetImageData = None \<and> throws h ReadToDataURL = None \<and>
    throws h WriteToDataURL = None \<and>
    (throws h ReadToBlob = Some e \<or> (throws h ReadToBlob = None \<and> throws h WriteToBlob = Some e)) \<longrightarrow>
      install h p =
        (if ignored h WriteToDataURL then p
         else p\<lparr>toDataURL_slot := Wrapper (getImageData_slot p) (toDataURL_slot p)\<rparr>)
        \<lparr>console := console p @ [e]\<rparr>) \<and>
   ((\<forall>s. throws h s = None) \<longrightarrow>
      console (install h p) = console p \<and>
      toDataURL_slot (install h p) =
        (if ignored h WriteToDataURL then toDataURL_slot p
         else Wrapper (getImageData_slot p) (toDataURL_slot p)) \<and>
      toBlob_slot (install h p) =
        (if ignored h WriteToBlob then toBlob_slot p
         else Wrapper (getImageData_slot p) (toBlob_slot p)))"
proof (intro conjI impI)
  assume f: "fst (try_block h p) = Some e"
  show "console (install h p) = console p @ [e]" using f by (rule try_block_failure)
  show "toBlob_slot (install h p) = toBlob_slot p" using f by (rule try_block_failure)
  show "toDataURL_slot (install h p) = toDataURL_slot p \<or>
       toDataURL_slot (install h p) = Wrapper (getImageData_slot p) (toDataURL_slot p)"
    using f by (rule try_block_failure)
next
  assume "throws h ReadGetImageData = Some e \<or>
     (throws h ReadGetImageData = None \<and>
       (throws h ReadToDataURL = Some e \<or>
         (throws h ReadToDataURL = None \<and> throws h WriteToDataURL = Some e)))"
  then show "install h p = p\<lparr>console := console p @ [e]\<rparr>" by (rule install_early_failure)
next
  assume "throws h ReadGetImageData = None \<and> throws h ReadToDataURL = None \<and>
    throws h WriteToDataURL = None \<and>
    (throws h ReadToBlob = Some e \<or> (throws h ReadToBlob = None \<and> throws h WriteToBlob = Some e))"
  then show "install h p =
        (if ignored h WriteToDataURL then p
         else p\<lparr>toDataURL_slot := Wrapper (getImageData_slot p) (toDataURL_slot p)\<rparr>)
        \<lparr>console := console p @ [e]\<rparr>"
    by (intro install_late_failure) simp_all
next
  assume t: "\<forall>s. throws h s = None"
  show "console (install h p) = console p" using t by (rule install_no_throw)
  show "toDataURL_slot (install h p) =
        (if ignored h WriteToDataURL then toDataURL_slot p
         else Wrapper (getImageData_slot p) (toDataURL_slot p))"
    using t by (rule install_no_throw)
  show "toBlob_slot (install h p) =
        (if ignored h WriteToBlob then toBlob_slot p
         else Wrapper (getImageData_slot p) (toBlob_slot p))"
    using t by (rule install_no_throw)
qed

theorem install_failure_contained_witness:
  "fst (try_block (blob_locked_host (\<lambda>k. zero) :: (string list, byte list) host)
     (native_page red_canvas :: string list page)) = Some TypeError \<and>
   console (install (blob_locked_host (\<lambda>k. zero) :: (string list, byte list) host)
     (native_page red_canvas :: string list page)) = [TypeError] \<and>
   toBlob_slot (install (blob_locked_host (\<lambda>k. zero) :: (string list, byte list) host)
     (native_page red_canvas :: string list page)) = NativeExport ToBlob \<and>
   throws (bare_host (\<lambda>k. zero) :: (string list, byte list) host) ReadGetImageData =
     Some ReferenceError \<and>
   install (bare_host (\<lambda>k. zero) :: (string list, byte list) host)
     (native_page red_canvas :: string list page) =
     (native_page red_canvas)\<lparr>console := [ReferenceError]\<rparr> \<and>
   install (blob_locked_host (\<lambda>k. zero) :: (string list, byte list) host)
     (native_page red_canvas :: string list page) =
     (native_page red_canvas)\<lparr>toDataURL_slot := Wrapper NativeGetImageData (NativeExport ToDataURL),
        console := [TypeError]\<rparr> \<and>
   throws (read_only_toDataURL_host (\<lambda>k. zero) :: (string list, byte list) host) WriteToDataURL =
     None \<and>
   console (install (read_only_toDataURL_host (\<lambda>k. zero) :: (string list, byte list) host)
     (native_page red_canvas :: string list page)) = [] \<and>
   toDataURL_slot (install (read_only_toDataURL_host (\<lambda>k. zero) :: (string list, byte list) host)
     (native_page red_canvas :: string list page)) = NativeExport ToDataURL \<and>
   toBlob_slot (install (read_only_toDataURL_host (\<lambda>k. zero) :: (string list, byte list) host)
     (native_page red_canvas :: string list page)) = Wrapper NativeGetImageData (NativeExport ToBlob)"
proof -
  let ?r = "read_only_toDataURL_host (\<lambda>k. zero) :: (string list, byte list) host"
  let ?l = "blob_locked_host (\<lambda>k. zero) :: (string list, byte list) host"
  let ?b = "bare_host (\<lambda>k. zero) :: (string list, byte list) host"
  let ?p = "native_page red_canvas :: string list page"
  have f: "fst (try_block ?l ?p) = Some TypeError"
    by (simp add: try_block_def blob_locked_throws Let_def)
  note a = install_failure_contained [where h = ?l and p = ?p and e = TypeError,
      THEN conjunct1, THEN mp, OF f]
  have e: "throws ?b ReadGetImageData = Some ReferenceError" by (simp add: bare_host_def)
  then have "throws ?b ReadGetImageData = Some ReferenceError \<or>
     (throws ?b ReadGetImageData = None \<and>
       (throws ?b ReadToDataURL = Some ReferenceError \<or>
         (throws ?b ReadToDataURL = None \<and> throws ?b WriteToDataURL = Some ReferenceError)))"
    by simp
  note b = install_failure_contained [where h = ?b and p = ?p and e = ReferenceError,
      THEN conjunct2, THEN conjunct1, THEN mp, OF this]
  have "throws ?l ReadGetImageData = None \<and> throws ?l ReadToDataURL = None \<and>
    throws ?l WriteToDataURL = None \<and>
    (throws ?l ReadToBlob = Some TypeError \<or>
      (throws ?l ReadToBlob = None \<and> throws ?l WriteToBlob = Some TypeError))"
    by (simp add: blob_locked_throws)
  note c = install_failure_contained [where h = ?l and p = ?p and e = TypeError,
      THEN conjunct2, THEN conjunct2, THEN conjunct1, THEN mp, OF this]
  note d = install_failure_contained [where h = ?r and p = ?p,
      THEN conjunct2, THEN conjunct2, THEN conjunct2, THEN mp, OF read_only_host(1)]
  from d have d1: "console (install ?r ?p) = []"
    "toDataURL_slot (install ?r ?p) = NativeExport ToDataURL"
    "toBlob_slot (install ?r ?p) = Wrapper NativeGetImageData (NativeExport ToBlob)"
    by (simp_all add: read_only_host native_page_slots)
  have d0: "throws ?r WriteToDataURL = None" by (simp add: read_only_host)
  from a have a1: "console (install ?l ?p) = [TypeError]"
    and a2: "toBlob_slot (install ?l ?p) = NativeExport ToBlob"
    by (simp_all add: native_page_slots)
  from b have b1: "install ?b ?p = ?p\<lparr>console := [ReferenceError]\<rparr>"
    by (simp add: native_page_slots)
  from c have c1: "install ?l ?p =
      ?p\<lparr>toDataURL_slot := Wrapper NativeGetImageData (NativeExport ToDataURL),
        console := [TypeError]\<rparr>"
    by (simp add: native_page_slots blob_locked_ignores)
  from f a1 a2 e b1 c1 d0 d1 show ?thesis by (intro conjI)
qed

text \<open>
  Claim C7 as stated fails: in a host where the assignment to \<^verbatim>\<open>toBlob\<close> throws, the
  installation ends with \<^verbatim>\<open>toDataURL\<close> patched and \<^verbatim>\<open>toBlob\<close> native.
\<close>

theorem half_patched_after_failure:
  "toDataURL_slot (install (blob_locked_host (\<lambda>k. zero) :: (string list, byte list) host)
     (native_page red_canvas :: string list page)) =
     Wrapper NativeGetImageData (NativeExport ToDataURL) \<and>
   toBlob_slot (install (blob_locked_host (\<lambda>k. zero) :: (string list, byte list) host)
     (native_page red_canvas :: string list page)) = NativeExport ToBlob \<and>
   console (install (blob_locked_host (\<lambda>k. zero) :: (string list, byte list) host)
     (native_page red_canvas :: string list page)) = [TypeError]"
proof -
  let ?l = "blob_locked_host (\<lambda>k. zero) :: (string list, byte list) host"
  let ?p = "native_page red_canvas :: string list page"
  have "throws ?l ReadToBlob = Some TypeError \<or>
      (throws ?l ReadToBlob = None \<and> throws ?l WriteToBlob = Some TypeError)"
    by (simp add: blob_locked_throws)
  from install_late_failure [OF blob_locked_throws(1-3) this, of ?p]
  show ?thesis by (simp add: native_page_slots blob_locked_ignores)
qed

end
